theory Spec2Isabelle
  imports Main
begin

section \<open>Python values, exceptions and dictionaries\<close>

text \<open>
  The program is \<^verbatim>\<open>pushserver/management/commands/runpushserver.py\<close>: a Django
  management command that parses an \<^verbatim>\<open>[address:]port\<close> argument, merges the
  built-in defaults of stores and locations with the settings, builds the stores, binds
  the locations to them and starts a Tornado HTTP server.

  Configuration values are Python values. A dict is an association list with string
  keys, which are pairwise distinct in a Python dict; the order of the list is the order
  in which Python iterates over the dict.
\<close>

datatype pyval =
    VNone
  | VBool bool
  | VInt int
  | VStr string
  | VTuple "pyval list"
  | VList "pyval list"
  | VDict "(string \<times> pyval) list"

type_synonym dict = "(string \<times> pyval) list"

text \<open>
  An exception that is raised and not caught. \<open>CommandError fmt args\<close> is
  \<^verbatim>\<open>management_base.CommandError(fmt % args)\<close>: the format string of the source
  and the values it is applied to. \<open>KeyError k\<close> is a failed lookup of the key \<open>k\<close>.
\<close>

datatype error =
    CommandError string "pyval list"
  | KeyError pyval
  | TypeError
  | IndexError
  | AttributeError

text \<open>
  The errors the command reports to its user are the CommandErrors; any other exception
  leaves the command as a traceback.
\<close>

definition is_command_error :: "error \<Rightarrow> bool" where
  "is_command_error e = (case e of CommandError fmt args \<Rightarrow> True | _ \<Rightarrow> False)"

text \<open>Sequencing of statements: an exception of the first ends the computation.\<close>

fun and_then :: "error + 'a \<Rightarrow> ('a \<Rightarrow> error + 'b) \<Rightarrow> error + 'b" where
  "and_then (Inl e) f = Inl e"
| "and_then (Inr x) f = f x"

text \<open>Lists and dicts have no hash; a tuple has one when all its items have.\<close>

fun hashable :: "pyval \<Rightarrow> bool" where
  "hashable (VTuple vs) = list_all hashable vs"
| "hashable (VList vs) = False"
| "hashable (VDict d) = False"
| "hashable v = True"

text \<open>\<^verbatim>\<open>d[k] = v\<close>: an existing key keeps its place, a new key comes last.\<close>

fun dict_setitem :: "(string \<times> 'v) list \<Rightarrow> string \<Rightarrow> 'v \<Rightarrow> (string \<times> 'v) list" where
  "dict_setitem [] k v = [(k, v)]"
| "dict_setitem ((k', v') # d) k v =
     (if k' = k then (k', v) # d else (k', v') # dict_setitem d k v)"

text \<open>\<^verbatim>\<open>d.update(e)\<close>: every item of \<open>e\<close> is stored in \<open>d\<close>, in the order of \<open>e\<close>.\<close>

definition dict_update :: "(string \<times> 'v) list \<Rightarrow> (string \<times> 'v) list \<Rightarrow> (string \<times> 'v) list" where
  "dict_update d e = fold (\<lambda>(k, v) acc. dict_setitem acc k v) e d"

text \<open>\<^verbatim>\<open>dict(pairs)\<close>.\<close>

definition dict_of_pairs :: "(string \<times> 'v) list \<Rightarrow> (string \<times> 'v) list" where
  "dict_of_pairs pairs = dict_update [] pairs"

definition dict_remove :: "(string \<times> 'v) list \<Rightarrow> string \<Rightarrow> (string \<times> 'v) list" where
  "dict_remove d k = filter (\<lambda>(k', v). k' \<noteq> k) d"

text \<open>\<^verbatim>\<open>d[k]\<close> for a string \<open>k\<close>.\<close>

definition dict_getitem :: "(string \<times> 'v) list \<Rightarrow> string \<Rightarrow> error + 'v" where
  "dict_getitem d k = (case map_of d k of None \<Rightarrow> Inl (KeyError (VStr k)) | Some v \<Rightarrow> Inr v)"

text \<open>
  \<^verbatim>\<open>d[key]\<close> for any value \<open>key\<close>: the keys of \<open>d\<close> are strings, and only a
  string is equal to a string.
\<close>

definition dict_lookup :: "(string \<times> 'v) list \<Rightarrow> pyval \<Rightarrow> error + 'v" where
  "dict_lookup d key =
     (if \<not> hashable key then Inl TypeError
      else case key of
             VStr k \<Rightarrow> (case map_of d k of None \<Rightarrow> Inl (KeyError key) | Some v \<Rightarrow> Inr v)
           | _ \<Rightarrow> Inl (KeyError key))"

text \<open>\<^verbatim>\<open>d.get(key, default)\<close>.\<close>

definition dict_get :: "(string \<times> 'v) list \<Rightarrow> pyval \<Rightarrow> 'v \<Rightarrow> error + 'v" where
  "dict_get d key dflt =
     (if \<not> hashable key then Inl TypeError
      else case key of
             VStr k \<Rightarrow> (case map_of d k of None \<Rightarrow> Inr dflt | Some v \<Rightarrow> Inr v)
           | _ \<Rightarrow> Inr dflt)"

text \<open>\<^verbatim>\<open>d.pop(k)\<close> returns the value and the dict without the key.\<close>

definition dict_pop :: "(string \<times> 'v) list \<Rightarrow> string \<Rightarrow> error + ('v \<times> (string \<times> 'v) list)" where
  "dict_pop d k =
     (case map_of d k of
        None \<Rightarrow> Inl (KeyError (VStr k))
      | Some v \<Rightarrow> Inr (v, dict_remove d k))"

text \<open>\<^verbatim>\<open>d.pop(k, default)\<close>.\<close>

definition dict_pop_default :: "(string \<times> 'v) list \<Rightarrow> string \<Rightarrow> 'v \<Rightarrow> 'v \<times> (string \<times> 'v) list" where
  "dict_pop_default d k dflt =
     (case map_of d k of
        None \<Rightarrow> (dflt, d)
      | Some v \<Rightarrow> (v, dict_remove d k))"

section \<open>The module's tables\<close>

definition DEFAULT_PORT :: string where
  "DEFAULT_PORT = ''8001''"

definition default_store :: "(string \<times> dict) list" where
  "default_store =
     [(''redis'',
         [(''port'', VInt 6379),
          (''host'', VStr ''localhost''),
          (''key_prefix'', VStr ''''),
          (''database'', VInt 0)]),
      (''memory'',
         [(''min_messages'', VInt 0),
          (''max_messages'', VInt 0),
          (''message_timeout'', VInt 0)])]"

definition default_location :: "(string \<times> dict) list" where
  "default_location =
     [(''subscriber'',
         [(''polling'', VStr ''long''),
          (''create_on_get'', VBool False),
          (''store'', VStr ''default'')]),
      (''publisher'',
         [(''create_on_post'', VBool True),
          (''store'', VStr ''default'')])]"

definition defaults :: dict where
  "defaults =
     [(''port'', VStr DEFAULT_PORT),
      (''address'', VStr ''127.0.0.1''),
      (''store'', VDict [(''type'', VStr ''memory'')]),
      (''locations'', VTuple
         [VDict [(''type'', VStr ''publisher''), (''prefix'', VStr ''/publisher/'')],
          VDict [(''type'', VStr ''subscriber''), (''prefix'', VStr ''/subscriber/'')]])]"

section \<open>Stores\<close>

text \<open>
  The classes of \<^verbatim>\<open>hbpush\<close> are outside the program. An instance is the class
  with the keyword arguments it was constructed from, and the constructors are taken not
  to raise.
\<close>

datatype store_cls = MemoryStore | RedisStore

datatype store_obj = Store store_cls dict

datatype registry_obj = Registry store_obj

text \<open>The dict \<^verbatim>\<open>{'store': store, 'registry': registry.Registry(store)}\<close>.\<close>

record resolved_store =
  store :: store_obj
  registry :: registry_obj

definition invalid_store_type :: string where
  \<open>invalid_store_type = ''Invalid store type "%s".''\<close>

text \<open>
  The first two statements of \<^verbatim>\<open>make_store\<close>, the merge:
  \<^verbatim>\<open>store_conf = default_store.get(store_dict['type'], {}).copy()\<close> and
  \<^verbatim>\<open>store_conf.update(store_dict)\<close>. Dicts being values here, the copy is the
  bundle itself.
\<close>

definition store_conf_of :: "dict \<Rightarrow> error + dict" where
  "store_conf_of store_dict =
     and_then (dict_getitem store_dict ''type'') (\<lambda>t.
     and_then (dict_get default_store t []) (\<lambda>bundle.
     Inr (dict_update bundle store_dict)))"

definition make_store :: "dict \<Rightarrow> error + resolved_store" where
  "make_store store_dict =
     and_then (store_conf_of store_dict) (\<lambda>store_conf.
     and_then (dict_pop store_conf ''type'') (\<lambda>(store_type, store_conf).
     and_then
       (if store_type = VStr ''memory'' then Inr MemoryStore
        else if store_type = VStr ''redis'' then Inr RedisStore
        else Inl (CommandError invalid_store_type [store_type])) (\<lambda>cls.
     let st = Store cls store_conf
     in Inr \<lparr>store = st, registry = Registry st\<rparr>)))"

text \<open>
  \<^verbatim>\<open>make_store(v)\<close> for any value: subscripting a value that is not a dict with
  \<^verbatim>\<open>'type'\<close> raises TypeError.
\<close>

definition make_store_of :: "pyval \<Rightarrow> error + resolved_store" where
  "make_store_of v = (case v of VDict d \<Rightarrow> make_store d | _ \<Rightarrow> Inl TypeError)"

text \<open>
  The list comprehension \<^verbatim>\<open>[(k, make_store(stores_dict[k])) for k in stores_dict]\<close>,
  over the keys still to visit.
\<close>

fun make_store_pairs :: "dict \<Rightarrow> string list \<Rightarrow> error + (string \<times> resolved_store) list" where
  "make_store_pairs stores_dict [] = Inr []"
| "make_store_pairs stores_dict (k # ks) =
     and_then (dict_getitem stores_dict k) (\<lambda>v.
     and_then (make_store_of v) (\<lambda>r.
     and_then (make_store_pairs stores_dict ks) (\<lambda>rest.
     Inr ((k, r) # rest))))"

definition make_stores :: "dict \<Rightarrow> error + (string \<times> resolved_store) list" where
  "make_stores stores_dict =
     (let stores_dict =
            (if ''type'' \<in> set (map fst stores_dict)
             then [(''default'', VDict stores_dict)] else stores_dict)
      in and_then (make_store_pairs stores_dict (map fst stores_dict)) (\<lambda>pairs.
         Inr (dict_of_pairs pairs)))"

text \<open>
  \<^verbatim>\<open>make_stores(v)\<close> for a value that is not a dict. A string is searched for
  \<^verbatim>\<open>'type'\<close> and then subscripted, by \<^verbatim>\<open>'type'\<close> or by its own
  characters, which raises TypeError unless it is empty. A tuple or list that has the
  item \<^verbatim>\<open>'type'\<close> is subscripted by it; otherwise it is subscripted by each of its
  items in turn, and the item found is passed to \<^verbatim>\<open>make_store\<close>. Every other
  value is not iterable.
\<close>

definition seq_at :: "pyval list \<Rightarrow> int \<Rightarrow> error + pyval" where
  "seq_at xs i =
     (if 0 \<le> i \<and> i < int (length xs) then Inr (xs ! nat i)
      else if - int (length xs) \<le> i \<and> i < 0 then Inr (xs ! nat (i + int (length xs)))
      else Inl IndexError)"

definition seq_getitem :: "pyval list \<Rightarrow> pyval \<Rightarrow> error + pyval" where
  "seq_getitem xs k =
     (case k of
        VInt i \<Rightarrow> seq_at xs i
      | VBool b \<Rightarrow> seq_at xs (if b then 1 else 0)
      | _ \<Rightarrow> Inl TypeError)"

fun make_store_items :: "pyval list \<Rightarrow> pyval list \<Rightarrow> error + unit" where
  "make_store_items xs [] = Inr ()"
| "make_store_items xs (k # ks) =
     and_then (seq_getitem xs k) (\<lambda>v.
     and_then (make_store_of v) (\<lambda>r.
     make_store_items xs ks))"

definition make_stores_seq :: "pyval list \<Rightarrow> error + (string \<times> resolved_store) list" where
  "make_stores_seq xs =
     (if VStr ''type'' \<in> set xs then Inl TypeError
      else and_then (make_store_items xs xs) (\<lambda>u. Inr []))"

definition make_stores_of :: "pyval \<Rightarrow> error + (string \<times> resolved_store) list" where
  "make_stores_of v =
     (case v of
        VDict d \<Rightarrow> make_stores d
      | VStr s \<Rightarrow> (if s = [] then Inr [] else Inl TypeError)
      | VTuple xs \<Rightarrow> make_stores_seq xs
      | VList xs \<Rightarrow> make_stores_seq xs
      | _ \<Rightarrow> Inl TypeError)"

section \<open>Locations\<close>

datatype handler_cls = Publisher | LongPollingSubscriber | Subscriber

text \<open>
  A keyword argument of a handler: the registry of a store, or a value of the
  location's configuration.
\<close>

datatype kwval = KRegistry registry_obj | KConf pyval

text \<open>The tuple \<^verbatim>\<open>(url, cls, kwargs)\<close>.\<close>

type_synonym binding = "pyval \<times> handler_cls \<times> (string \<times> kwval) list"

definition invalid_polling :: string where
  \<open>invalid_polling = ''Invalid polling "%s".''\<close>

definition invalid_location_type :: string where
  \<open>invalid_location_type = ''Invalid location type "%s".''\<close>

text \<open>\<^verbatim>\<open>v + '(.+)'\<close>: only a string can be added to a string.\<close>

definition add_str :: "pyval \<Rightarrow> string \<Rightarrow> error + pyval" where
  "add_str v s = (case v of VStr p \<Rightarrow> Inr (VStr (p @ s)) | _ \<Rightarrow> Inl TypeError)"

text \<open>
  The merge of \<^verbatim>\<open>make_location\<close>:
  \<^verbatim>\<open>loc_conf = default_location.get(loc_dict['type'], {}).copy()\<close> and
  \<^verbatim>\<open>loc_conf.update(loc_dict)\<close>.
\<close>

definition loc_conf_of :: "dict \<Rightarrow> error + dict" where
  "loc_conf_of loc_dict =
     and_then (dict_getitem loc_dict ''type'') (\<lambda>t.
     and_then (dict_get default_location t []) (\<lambda>bundle.
     Inr (dict_update bundle loc_dict)))"

text \<open>
  The statements of \<^verbatim>\<open>make_location\<close> after the dispatch on the type, for the
  handler class \<open>cls\<close> the dispatch chose. In
  \<^verbatim>\<open>loc_conf.pop('url', loc_conf.pop('prefix', '')+'(.+)')\<close> the argument is
  evaluated first: the prefix is popped and extended whether or not there is a url.
\<close>

definition bind_location ::
  "handler_cls \<Rightarrow> dict \<Rightarrow> (string \<times> resolved_store) list \<Rightarrow> error + binding" where
  "bind_location cls loc_conf stores =
     (let (prefix, loc_conf) = dict_pop_default loc_conf ''prefix'' (VStr []) in
      and_then (add_str prefix ''(.+)'') (\<lambda>dflt.
      let (url, loc_conf) = dict_pop_default loc_conf ''url'' dflt in
      and_then (dict_pop loc_conf ''store'') (\<lambda>(store_id, loc_conf).
      and_then (dict_lookup stores store_id) (\<lambda>r.
      let kwargs = dict_update [(''registry'', KRegistry (registry r))]
                     (map (\<lambda>(k, v). (k, KConf v)) loc_conf)
      in Inr (url, cls, kwargs)))))"

definition make_location :: "dict \<Rightarrow> (string \<times> resolved_store) list option \<Rightarrow> error + binding" where
  "make_location loc_dict stores =
     (let stores = (case stores of None \<Rightarrow> [] | Some s \<Rightarrow> s) in
      and_then (loc_conf_of loc_dict) (\<lambda>loc_conf.
      and_then (dict_pop loc_conf ''type'') (\<lambda>(loc_type, loc_conf).
      and_then
        (if loc_type = VStr ''publisher'' then Inr (Publisher, loc_conf)
         else if loc_type = VStr ''subscriber'' then
           and_then (dict_pop loc_conf ''polling'') (\<lambda>(sub_type, loc_conf).
             if sub_type = VStr ''long'' then Inr (LongPollingSubscriber, loc_conf)
             else if sub_type = VStr ''interval'' then Inr (Subscriber, loc_conf)
             else Inl (CommandError invalid_polling [sub_type]))
         else Inl (CommandError invalid_location_type [loc_type])) (\<lambda>(cls, loc_conf).
      bind_location cls loc_conf stores))))"

definition make_location_of :: "pyval \<Rightarrow> (string \<times> resolved_store) list option \<Rightarrow> error + binding" where
  "make_location_of v stores =
     (case v of VDict d \<Rightarrow> make_location d stores | _ \<Rightarrow> Inl TypeError)"

text \<open>
  \<^verbatim>\<open>map(functools.partial(make_location, stores=stores), locations)\<close>, which
  builds the whole list before it returns (Python 2).
\<close>

fun map_make_location :: "(string \<times> resolved_store) list \<Rightarrow> pyval list \<Rightarrow> error + binding list" where
  "map_make_location stores [] = Inr []"
| "map_make_location stores (v # vs) =
     and_then (make_location_of v (Some stores)) (\<lambda>b.
     and_then (map_make_location stores vs) (\<lambda>bs.
     Inr (b # bs)))"

text \<open>The items an iteration over a value visits.\<close>

definition py_iter :: "pyval \<Rightarrow> error + pyval list" where
  "py_iter v =
     (case v of
        VTuple xs \<Rightarrow> Inr xs
      | VList xs \<Rightarrow> Inr xs
      | VDict d \<Rightarrow> Inr (map (\<lambda>(k, x). VStr k) d)
      | VStr s \<Rightarrow> Inr (map (\<lambda>c. VStr [c]) s)
      | _ \<Rightarrow> Inl TypeError)"

section \<open>The command\<close>

text \<open>
  The attributes of \<^verbatim>\<open>self\<close> that \<^verbatim>\<open>handle\<close> sets:
  \<^verbatim>\<open>self.addr\<close>, \<^verbatim>\<open>self.port\<close>, \<^verbatim>\<open>self.use_ipv6\<close> and
  \<^verbatim>\<open>self._raw_ipv6\<close>. The option \<^verbatim>\<open>use_ipv6\<close> is only ever tested for
  truth, and is a truth value here.
\<close>

record command =
  addr :: string
  port :: string
  use_ipv6 :: bool
  raw_ipv6 :: bool

text \<open>What \<^verbatim>\<open>listen\<close> is called with: the handlers, the port and the address.\<close>

record server =
  handlers :: "binding list"
  listen_port :: pyval
  listen_address :: pyval

text \<open>
  What a run of the command does: the addresses it announces on its standard output,
  and then either an exception or the server it starts.
\<close>

record outcome =
  written :: "string list"
  result :: "error + server"

text \<open>\<^verbatim>\<open>self._raw_ipv6 and '[%s]' % self.addr or self.addr\<close>.\<close>

definition shown_addr :: "command \<Rightarrow> string" where
  "shown_addr self = (if raw_ipv6 self then ''['' @ addr self @ '']'' else addr self)"

text \<open>
  The part \<^verbatim>\<open>http://%(addr)s:%(port)s/\<close> of the message \<^verbatim>\<open>run\<close> writes; the
  rest of the message is versions and names of the environment.
\<close>

definition running_at :: "command \<Rightarrow> string" where
  "running_at self = ''http://'' @ shown_addr self @ '':'' @ port self @ ''/''"

text \<open>
  The first statements of \<^verbatim>\<open>run\<close> after the message:
  \<^verbatim>\<open>conf = defaults.copy()\<close>, the update with \<^verbatim>\<open>self.port\<close> and
  \<^verbatim>\<open>self.addr\<close>, and the update with
  \<^verbatim>\<open>getattr(settings, 'PUSH_SERVER', {})\<close>. \<open>settings\<close> is the value of
  \<^verbatim>\<open>settings.PUSH_SERVER\<close>, \<open>None\<close> when the settings have no such attribute.
\<close>

definition conf_of :: "command \<Rightarrow> dict option \<Rightarrow> dict" where
  "conf_of self settings =
     (let conf = defaults;
          conf = dict_update conf [(''port'', VStr (port self)), (''address'', VStr (addr self))];
          conf = dict_update conf (case settings of None \<Rightarrow> [] | Some ps \<Rightarrow> ps)
      in conf)"

text \<open>
  The rest of \<^verbatim>\<open>run\<close>, to the call of \<^verbatim>\<open>listen\<close>: the stores, then the
  locations, then the server.
\<close>

definition assemble :: "command \<Rightarrow> dict option \<Rightarrow> error + server" where
  "assemble self settings =
     (let conf = conf_of self settings
      in and_then (dict_getitem conf ''store'') (\<lambda>v.
         and_then (make_stores_of v) (\<lambda>stores.
         and_then (dict_getitem conf ''locations'') (\<lambda>v.
         and_then (py_iter v) (\<lambda>items.
         and_then (map_make_location stores items) (\<lambda>locations.
         and_then (dict_getitem conf ''port'') (\<lambda>p.
         and_then (dict_getitem conf ''address'') (\<lambda>a.
         Inr \<lparr>handlers = locations, listen_port = p, listen_address = a\<rparr>))))))))"

definition run :: "command \<Rightarrow> dict option \<Rightarrow> outcome" where
  "run self settings = \<lparr>written = [running_at self], result = assemble self settings\<rparr>"

text \<open>
  \<^verbatim>\<open>runserver.naiveip_re\<close> belongs to Django and is a parameter: \<open>naiveip_re s\<close> is
  \<open>None\<close> when \<^verbatim>\<open>re.match\<close> finds no match, and else the five groups of the match
  (\<^verbatim>\<open>addr\<close>, \<^verbatim>\<open>ipv4\<close>, \<^verbatim>\<open>ipv6\<close>, \<^verbatim>\<open>fqdn\<close>, \<^verbatim>\<open>port\<close>), each
  \<open>None\<close> when it took no part in the match.
\<close>

type_synonym groups = "string option \<times> string option \<times> string option \<times> string option \<times> string option"

definition truthy :: "string option \<Rightarrow> bool" where
  "truthy g = (case g of None \<Rightarrow> False | Some s \<Rightarrow> s \<noteq> [])"

definition isdigit :: "string \<Rightarrow> bool" where
  "isdigit s = (s \<noteq> [] \<and> list_all (\<lambda>c. c \<in> set ''0123456789'') s)"

definition not_valid_addrport :: string where
  \<open>not_valid_addrport = ''"%s" is not a valid port number or address:port pair.''\<close>

definition not_valid_port :: string where
  \<open>not_valid_port = ''%r is not a valid port number.''\<close>

definition not_valid_ipv6 :: string where
  \<open>not_valid_ipv6 = ''"%s" is not a valid IPv6 address.''\<close>

text \<open>
  The statements of \<^verbatim>\<open>handle\<close> from \<^verbatim>\<open>self._raw_ipv6 = False\<close> to the end of
  the \<^verbatim>\<open>else\<close> branch: the address (a string or \<open>None\<close>), the port,
  \<^verbatim>\<open>self.use_ipv6\<close> and \<^verbatim>\<open>self._raw_ipv6\<close>.
\<close>

definition parse_addrport ::
  "(string \<Rightarrow> groups option) \<Rightarrow> string \<Rightarrow> bool \<Rightarrow> error + (string option \<times> string \<times> bool \<times> bool)" where
  "parse_addrport naiveip_re addrport use6 =
     (if addrport = [] then Inr (Some [], DEFAULT_PORT, use6, False)
      else case naiveip_re addrport of
        None \<Rightarrow> Inl (CommandError not_valid_addrport [VStr addrport])
      | Some (a, ipv4, ipv6, fqdn, p) \<Rightarrow>
          (case p of
             None \<Rightarrow> Inl AttributeError
           | Some p \<Rightarrow>
               if \<not> isdigit p then Inl (CommandError not_valid_port [VStr p])
               else (case a of
                  None \<Rightarrow> Inr (None, p, use6, False)
                | Some h \<Rightarrow>
                    if h = [] then Inr (Some h, p, use6, False)
                    else if truthy ipv6 then Inr (Some (butlast (tl h)), p, True, True)
                    else if use6 \<and> \<not> truthy fqdn then Inl (CommandError not_valid_ipv6 [VStr h])
                    else Inr (Some h, p, use6, False))))"

text \<open>
  The address resolver: the statements above, and then
  \<^verbatim>\<open>if not self.addr: self.addr = self.use_ipv6 and '::1' or '127.0.0.1';
  self._raw_ipv6 = bool(self.use_ipv6)\<close>.
\<close>

definition resolve_addrport :: "(string \<Rightarrow> groups option) \<Rightarrow> string \<Rightarrow> bool \<Rightarrow> error + command" where
  "resolve_addrport naiveip_re addrport use6 =
     and_then (parse_addrport naiveip_re addrport use6) (\<lambda>(a, p, use6, raw).
       case (if truthy a then a else None) of
         None \<Rightarrow> Inr \<lparr>addr = (if use6 then ''::1'' else ''127.0.0.1''), port = p,
                      use_ipv6 = use6, raw_ipv6 = use6\<rparr>
       | Some h \<Rightarrow> Inr \<lparr>addr = h, port = p, use_ipv6 = use6, raw_ipv6 = raw\<rparr>)"

definition no_ipv6_support :: string where
  "no_ipv6_support = ''Your Python does not support IPv6.''"

definition usage :: string where
  "usage = ''Usage is runpushserver %s''"

definition command_args :: string where
  "command_args = ''[optional port number, or ipaddr:port]''"

text \<open>
  \<^verbatim>\<open>handle(self, addrport, *args, **options)\<close>; \<open>has_ipv6\<close> is
  \<^verbatim>\<open>socket.has_ipv6\<close>.
\<close>

definition handle ::
  "(string \<Rightarrow> groups option) \<Rightarrow> bool \<Rightarrow> dict option \<Rightarrow> string \<Rightarrow> string list \<Rightarrow> bool \<Rightarrow> outcome" where
  "handle naiveip_re has_ipv6 settings addrport args use6 =
     (if use6 \<and> \<not> has_ipv6 then \<lparr>written = [], result = Inl (CommandError no_ipv6_support [])\<rparr>
      else if args \<noteq> [] then \<lparr>written = [], result = Inl (CommandError usage [VStr command_args])\<rparr>
      else case resolve_addrport naiveip_re addrport use6 of
             Inl e \<Rightarrow> \<lparr>written = [], result = Inl e\<rparr>
           | Inr self \<Rightarrow> run self settings)"

section \<open>The merge in the words of the specification\<close>

text \<open>
  The built-in default bundle of a declared type: the entry of the table for that type,
  and the empty bundle when the table has none.
\<close>

definition spec_default_bundle :: "(string \<times> dict) list \<Rightarrow> pyval \<Rightarrow> dict" where
  "spec_default_bundle table t =
     (case t of
        VStr name \<Rightarrow> (case map_of table name of Some bundle \<Rightarrow> bundle | None \<Rightarrow> [])
      | _ \<Rightarrow> [])"

text \<open>
  The bundle overlaid with an entry, key by key: a key of the entry has the entry's value,
  whatever the bundle has for it, and any other key has the bundle's value.
\<close>

definition spec_overlay :: "dict \<Rightarrow> dict \<Rightarrow> string \<Rightarrow> pyval option" where
  "spec_overlay bundle entry k =
     (case map_of entry k of Some v \<Rightarrow> Some v | None \<Rightarrow> map_of bundle k)"

section \<open>The factories on a heap of objects\<close>

text \<open>
  Above, a dict is a value, and a copy of a dict is the dict. That reading is sound only
  if the factories leave the dicts they are given, and the module's tables, as they were.
  To state that, the same statements are modelled again over a heap, where a dict is an
  object with an address, \<^verbatim>\<open>copy\<close> allocates a new object, and \<^verbatim>\<open>update\<close> and
  \<^verbatim>\<open>pop\<close> change the object at an address.

  A value is immutable, or a reference to a dict or list in the heap. An instance of a
  store class holds the keyword arguments it was constructed from, and a registry its
  store; the constructors are taken not to touch the heap.
\<close>

type_synonym addr = nat

datatype hval =
    HNone
  | HBool bool
  | HInt int
  | HStr string
  | HTuple "hval list"
  | HRef addr
  | HStore store_cls "(string \<times> hval) list"
  | HRegistry hval

datatype obj = ODict "(string \<times> hval) list" | OList "hval list"

type_synonym heap = "obj list"

datatype herror =
    HCommandError string "hval list"
  | HKeyError hval
  | HTypeError

text \<open>A statement: from a heap, an exception or a result, and the heap it leaves.\<close>

type_synonym 'a hm = "heap \<Rightarrow> (herror + 'a) \<times> heap"

definition h_return :: "'a \<Rightarrow> 'a hm" where
  "h_return x = (\<lambda>h. (Inr x, h))"

definition h_raise :: "herror \<Rightarrow> 'a hm" where
  "h_raise e = (\<lambda>h. (Inl e, h))"

definition h_bind :: "'a hm \<Rightarrow> ('a \<Rightarrow> 'b hm) \<Rightarrow> 'b hm" where
  "h_bind m f = (\<lambda>h. case m h of (Inl e, h') \<Rightarrow> (Inl e, h') | (Inr x, h') \<Rightarrow> f x h')"

fun hashable_h :: "hval \<Rightarrow> bool" where
  "hashable_h (HTuple vs) = list_all hashable_h vs"
| "hashable_h (HRef a) = False"
| "hashable_h v = True"

text \<open>The items of the dict at an address; \<open>None\<close> when there is no dict there.\<close>

definition dict_at :: "heap \<Rightarrow> addr \<Rightarrow> (string \<times> hval) list option" where
  "dict_at h a =
     (if a < length h then (case h ! a of ODict d \<Rightarrow> Some d | OList xs \<Rightarrow> None) else None)"

text \<open>A new object, at the end of the heap.\<close>

definition h_alloc :: "obj \<Rightarrow> addr hm" where
  "h_alloc ob = (\<lambda>h. (Inr (length h), h @ [ob]))"

text \<open>
  The items of the dict at an address. The statements below are only ever applied to
  dicts; on anything else the model raises TypeError.
\<close>

definition h_items :: "addr \<Rightarrow> (string \<times> hval) list hm" where
  "h_items a = (\<lambda>h. case dict_at h a of None \<Rightarrow> (Inl HTypeError, h) | Some d \<Rightarrow> (Inr d, h))"

text \<open>\<^verbatim>\<open>d[k]\<close> for a string \<open>k\<close>.\<close>

definition h_getitem :: "addr \<Rightarrow> string \<Rightarrow> hval hm" where
  "h_getitem a k =
     h_bind (h_items a) (\<lambda>d.
       case map_of d k of None \<Rightarrow> h_raise (HKeyError (HStr k)) | Some v \<Rightarrow> h_return v)"

text \<open>\<^verbatim>\<open>d[key]\<close> for any value.\<close>

definition h_lookup :: "addr \<Rightarrow> hval \<Rightarrow> hval hm" where
  "h_lookup a key =
     h_bind (h_items a) (\<lambda>d.
       if \<not> hashable_h key then h_raise HTypeError
       else case key of
              HStr k \<Rightarrow> (case map_of d k of None \<Rightarrow> h_raise (HKeyError key) | Some v \<Rightarrow> h_return v)
            | _ \<Rightarrow> h_raise (HKeyError key))"

text \<open>\<^verbatim>\<open>d.get(key, default)\<close>.\<close>

definition h_get :: "addr \<Rightarrow> hval \<Rightarrow> hval \<Rightarrow> hval hm" where
  "h_get a key dflt =
     h_bind (h_items a) (\<lambda>d.
       if \<not> hashable_h key then h_raise HTypeError
       else case key of
              HStr k \<Rightarrow> (case map_of d k of None \<Rightarrow> h_return dflt | Some v \<Rightarrow> h_return v)
            | _ \<Rightarrow> h_return dflt)"

text \<open>\<^verbatim>\<open>v.copy()\<close> for a value that refers to a dict: a new dict with the same items.\<close>

definition h_copy :: "hval \<Rightarrow> addr hm" where
  "h_copy v =
     (case v of
        HRef a \<Rightarrow> h_bind (h_items a) (\<lambda>d. h_alloc (ODict d))
      | _ \<Rightarrow> h_raise HTypeError)"

text \<open>The dict at an address gets new items; every other object stays.\<close>

definition h_store :: "addr \<Rightarrow> (string \<times> hval) list \<Rightarrow> unit hm" where
  "h_store a d = (\<lambda>h. (Inr (), h[a := ODict d]))"

text \<open>\<^verbatim>\<open>d.update(e)\<close>, for the dicts at two addresses.\<close>

definition h_update :: "addr \<Rightarrow> addr \<Rightarrow> unit hm" where
  "h_update a b =
     h_bind (h_items a) (\<lambda>d.
     h_bind (h_items b) (\<lambda>e.
     h_store a (dict_update d e)))"

text \<open>\<^verbatim>\<open>d.pop(k)\<close>.\<close>

definition h_pop :: "addr \<Rightarrow> string \<Rightarrow> hval hm" where
  "h_pop a k =
     h_bind (h_items a) (\<lambda>d.
       case map_of d k of
         None \<Rightarrow> h_raise (HKeyError (HStr k))
       | Some v \<Rightarrow> h_bind (h_store a (dict_remove d k)) (\<lambda>u. h_return v))"

text \<open>\<^verbatim>\<open>d.pop(k, default)\<close>.\<close>

definition h_pop_default :: "addr \<Rightarrow> string \<Rightarrow> hval \<Rightarrow> hval hm" where
  "h_pop_default a k dflt =
     h_bind (h_items a) (\<lambda>d.
       case map_of d k of
         None \<Rightarrow> h_return dflt
       | Some v \<Rightarrow> h_bind (h_store a (dict_remove d k)) (\<lambda>u. h_return v))"

text \<open>
  The objects the module creates when it is loaded, in the order of the source: the two
  bundles of \<^verbatim>\<open>default_store\<close> and the table, the two bundles of
  \<^verbatim>\<open>default_location\<close> and the table, and the store, the two locations and the dict
  of \<^verbatim>\<open>defaults\<close>.
\<close>

definition module_heap :: heap where
  "module_heap =
     [ODict [(''port'', HInt 6379), (''host'', HStr ''localhost''),
             (''key_prefix'', HStr []), (''database'', HInt 0)],
      ODict [(''min_messages'', HInt 0), (''max_messages'', HInt 0),
             (''message_timeout'', HInt 0)],
      ODict [(''redis'', HRef 0), (''memory'', HRef 1)],
      ODict [(''polling'', HStr ''long''), (''create_on_get'', HBool False),
             (''store'', HStr ''default'')],
      ODict [(''create_on_post'', HBool True), (''store'', HStr ''default'')],
      ODict [(''subscriber'', HRef 3), (''publisher'', HRef 4)],
      ODict [(''type'', HStr ''memory'')],
      ODict [(''type'', HStr ''publisher''), (''prefix'', HStr ''/publisher/'')],
      ODict [(''type'', HStr ''subscriber''), (''prefix'', HStr ''/subscriber/'')],
      ODict [(''port'', HStr DEFAULT_PORT), (''address'', HStr ''127.0.0.1''),
             (''store'', HRef 6), (''locations'', HTuple [HRef 7, HRef 8])]]"

definition default_store_addr :: addr where
  "default_store_addr = 2"

definition default_location_addr :: addr where
  "default_location_addr = 5"

definition defaults_addr :: addr where
  "defaults_addr = 9"

text \<open>
  The merge of \<^verbatim>\<open>make_store\<close>, for the store dict at an address: the address of
  \<^verbatim>\<open>store_conf\<close>. The default \<^verbatim>\<open>{}\<close> of \<^verbatim>\<open>get\<close> is a new dict, made
  whether or not it is needed.
\<close>

definition store_conf_h :: "addr \<Rightarrow> addr hm" where
  "store_conf_h store_dict =
     h_bind (h_getitem store_dict ''type'') (\<lambda>t.
     h_bind (h_alloc (ODict [])) (\<lambda>empty.
     h_bind (h_get default_store_addr t (HRef empty)) (\<lambda>bundle.
     h_bind (h_copy bundle) (\<lambda>store_conf.
     h_bind (h_update store_conf store_dict) (\<lambda>u.
     h_return store_conf)))))"

text \<open>\<^verbatim>\<open>make_store\<close>: the address of the dict it returns.\<close>

definition make_store_h :: "addr \<Rightarrow> addr hm" where
  "make_store_h store_dict =
     h_bind (store_conf_h store_dict) (\<lambda>store_conf.
     h_bind (h_pop store_conf ''type'') (\<lambda>store_type.
     h_bind
       (if store_type = HStr ''memory'' then h_return MemoryStore
        else if store_type = HStr ''redis'' then h_return RedisStore
        else h_raise (HCommandError invalid_store_type [store_type])) (\<lambda>cls.
     h_bind (h_items store_conf) (\<lambda>kwargs.
     let st = HStore cls kwargs
     in h_alloc (ODict [(''store'', st), (''registry'', HRegistry st)])))))"

text \<open>\<^verbatim>\<open>make_store(v)\<close> for any value.\<close>

definition make_store_of_h :: "hval \<Rightarrow> addr hm" where
  "make_store_of_h v = (case v of HRef a \<Rightarrow> make_store_h a | _ \<Rightarrow> h_raise HTypeError)"

text \<open>The list comprehension of \<^verbatim>\<open>make_stores\<close>, over the keys still to visit.\<close>

fun make_store_pairs_h :: "addr \<Rightarrow> string list \<Rightarrow> (string \<times> hval) list hm" where
  "make_store_pairs_h stores_dict [] = h_return []"
| "make_store_pairs_h stores_dict (k # ks) =
     h_bind (h_getitem stores_dict k) (\<lambda>v.
     h_bind (make_store_of_h v) (\<lambda>r.
     h_bind (make_store_pairs_h stores_dict ks) (\<lambda>rest.
     h_return ((k, HRef r) # rest))))"

text \<open>
  \<^verbatim>\<open>make_stores\<close>, for the stores dict at an address: the address of the dict it
  returns. \<^verbatim>\<open>{'default': stores_dict}\<close> is a new dict that refers to the given one.
\<close>

definition make_stores_h :: "addr \<Rightarrow> addr hm" where
  "make_stores_h stores_dict =
     h_bind (h_items stores_dict) (\<lambda>d.
     h_bind
       (if ''type'' \<in> set (map fst d)
        then h_alloc (ODict [(''default'', HRef stores_dict)])
        else h_return stores_dict) (\<lambda>stores_dict.
     h_bind (h_items stores_dict) (\<lambda>d.
     h_bind (make_store_pairs_h stores_dict (map fst d)) (\<lambda>pairs.
     h_alloc (ODict (dict_of_pairs pairs))))))"

text \<open>The merge of \<^verbatim>\<open>make_location\<close>: the address of \<^verbatim>\<open>loc_conf\<close>.\<close>

definition loc_conf_h :: "addr \<Rightarrow> addr hm" where
  "loc_conf_h loc_dict =
     h_bind (h_getitem loc_dict ''type'') (\<lambda>t.
     h_bind (h_alloc (ODict [])) (\<lambda>empty.
     h_bind (h_get default_location_addr t (HRef empty)) (\<lambda>bundle.
     h_bind (h_copy bundle) (\<lambda>loc_conf.
     h_bind (h_update loc_conf loc_dict) (\<lambda>u.
     h_return loc_conf)))))"

definition add_str_h :: "hval \<Rightarrow> string \<Rightarrow> hval hm" where
  "add_str_h v s = (case v of HStr p \<Rightarrow> h_return (HStr (p @ s)) | _ \<Rightarrow> h_raise HTypeError)"

text \<open>\<^verbatim>\<open>stores[store_id]['registry']\<close>.\<close>

definition registry_of_h :: "addr \<Rightarrow> hval \<Rightarrow> hval hm" where
  "registry_of_h stores store_id =
     h_bind (h_lookup stores store_id) (\<lambda>r.
       case r of HRef a \<Rightarrow> h_getitem a ''registry'' | _ \<Rightarrow> h_raise HTypeError)"

text \<open>
  \<^verbatim>\<open>make_location\<close>, for the location dict at an address and the stores dict at an
  address, if one is given: the url, the handler class and the address of
  \<^verbatim>\<open>kwargs\<close>.
\<close>

definition make_location_h :: "addr \<Rightarrow> addr option \<Rightarrow> (hval \<times> handler_cls \<times> addr) hm" where
  "make_location_h loc_dict stores =
     h_bind (case stores of None \<Rightarrow> h_alloc (ODict []) | Some s \<Rightarrow> h_return s) (\<lambda>stores.
     h_bind (loc_conf_h loc_dict) (\<lambda>loc_conf.
     h_bind (h_pop loc_conf ''type'') (\<lambda>loc_type.
     h_bind
       (if loc_type = HStr ''publisher'' then h_return Publisher
        else if loc_type = HStr ''subscriber'' then
          h_bind (h_pop loc_conf ''polling'') (\<lambda>sub_type.
            if sub_type = HStr ''long'' then h_return LongPollingSubscriber
            else if sub_type = HStr ''interval'' then h_return Subscriber
            else h_raise (HCommandError invalid_polling [sub_type]))
        else h_raise (HCommandError invalid_location_type [loc_type])) (\<lambda>cls.
     h_bind (h_pop_default loc_conf ''prefix'' (HStr [])) (\<lambda>prefix.
     h_bind (add_str_h prefix ''(.+)'') (\<lambda>dflt.
     h_bind (h_pop_default loc_conf ''url'' dflt) (\<lambda>url.
     h_bind (h_pop loc_conf ''store'') (\<lambda>store_id.
     h_bind (registry_of_h stores store_id) (\<lambda>reg.
     h_bind (h_alloc (ODict [(''registry'', reg)])) (\<lambda>kwargs.
     h_bind (h_update kwargs loc_conf) (\<lambda>u.
     h_return (url, cls, kwargs))))))))))))"

text \<open>
  An object that exists is left as it is: the heap keeps its length or grows, and the
  objects below \<open>n\<close> are the same.
\<close>

definition unchanged :: "nat \<Rightarrow> heap \<Rightarrow> heap \<Rightarrow> bool" where
  "unchanged n h h' = (length h \<le> length h' \<and> take n h' = take n h)"

text \<open>
  A statement that, from any heap with at least \<open>n\<close> objects, leaves the objects below
  \<open>n\<close> unchanged, and whose result, if it has one, satisfies \<open>Q\<close>.
\<close>

definition keeps :: "nat \<Rightarrow> 'a hm \<Rightarrow> ('a \<Rightarrow> bool) \<Rightarrow> bool" where
  "keeps n m Q =
     (\<forall>h. n \<le> length h \<longrightarrow>
        (case m h of (r, h') \<Rightarrow> unchanged n h h' \<and> (case r of Inl e \<Rightarrow> True | Inr x \<Rightarrow> Q x)))"

text \<open>
  The items of the bundle that a table of the module has for a type, and no items when
  it has none: what the merge copies.
\<close>

definition bundle_h :: "addr \<Rightarrow> hval \<Rightarrow> (string \<times> hval) list" where
  "bundle_h table t =
     (case t of
        HStr name \<Rightarrow>
          (case dict_at module_heap table of
             None \<Rightarrow> []
           | Some T \<Rightarrow>
               (case map_of T name of
                  Some (HRef b) \<Rightarrow> (case dict_at module_heap b of Some B \<Rightarrow> B | None \<Rightarrow> [])
                | _ \<Rightarrow> []))
      | _ \<Rightarrow> [])"

section \<open>Properties of the dict operations\<close>

lemma map_of_dict_setitem: "map_of (dict_setitem d k v) = (map_of d)(k \<mapsto> v)"
  by (induction d) (auto simp: fun_eq_iff)

lemma keys_dict_setitem: "fst ` set (dict_setitem d k v) = insert k (fst ` set d)"
proof (induction d)
  case Nil
  then show ?case by simp
next
  case (Cons p d)
  obtain k' v' where p: "p = (k', v')" by (cases p)
  show ?case
  proof (cases "k' = k")
    case True
    then show ?thesis by (simp add: p)
  next
    case False
    then show ?thesis using Cons.IH by (simp add: p insert_commute)
  qed
qed

lemma distinct_dict_setitem: "distinct (map fst d) \<Longrightarrow> distinct (map fst (dict_setitem d k v))"
proof (induction d)
  case Nil
  then show ?case by simp
next
  case (Cons p d)
  obtain k' v' where p: "p = (k', v')" by (cases p)
  from Cons show ?case
    using keys_dict_setitem [of d k v] by (auto simp: p)
qed

lemma map_of_dict_update:
  "distinct (map fst e) \<Longrightarrow> map_of (dict_update d e) = map_of d ++ map_of e"
  unfolding dict_update_def
proof (induction e arbitrary: d)
  case Nil
  then show ?case by simp
next
  case (Cons p e)
  obtain k v where p: "p = (k, v)" by (cases p)
  from Cons.prems have k: "k \<notin> fst ` set e" and e: "distinct (map fst e)"
    by (auto simp: p)
  have none: "map_of e k = None" using k by (simp add: map_of_eq_None_iff)
  have f: "fold (\<lambda>(k, v) acc. dict_setitem acc k v) (p # e) d
             = fold (\<lambda>(k, v) acc. dict_setitem acc k v) e (dict_setitem d k v)"
    by (simp add: p)
  have "map_of (fold (\<lambda>(k, v) acc. dict_setitem acc k v) e (dict_setitem d k v))
          = map_of (dict_setitem d k v) ++ map_of e"
    by (rule Cons.IH [OF e])
  also have "\<dots> = (map_of d)(k \<mapsto> v) ++ map_of e"
    by (simp only: map_of_dict_setitem)
  also have "\<dots> = (map_of d ++ map_of e)(k \<mapsto> v)"
  proof (rule ext)
    fix x
    show "((map_of d)(k \<mapsto> v) ++ map_of e) x = ((map_of d ++ map_of e)(k \<mapsto> v)) x"
      using none by (cases "x = k") (simp_all add: map_add_def split: option.splits)
  qed
  also have "\<dots> = map_of d ++ (map_of e)(k \<mapsto> v)"
    by (simp only: map_add_upd)
  also have "\<dots> = map_of d ++ map_of (p # e)"
    by (simp add: p)
  finally show ?case
    by (simp only: f)
qed

lemma distinct_dict_update:
  "distinct (map fst d) \<Longrightarrow> distinct (map fst (dict_update d e))"
  unfolding dict_update_def
  by (induction e arbitrary: d) (auto simp: distinct_dict_setitem)

lemma map_of_dict_remove: "map_of (dict_remove d k) = (map_of d)(k := None)"
  unfolding dict_remove_def
  by (induction d) (auto simp: fun_eq_iff)

lemma distinct_dict_remove: "distinct (map fst d) \<Longrightarrow> distinct (map fst (dict_remove d k))"
  unfolding dict_remove_def by (induction d) auto

lemma dict_getitem_Some: "map_of d k = Some v \<Longrightarrow> dict_getitem d k = Inr v"
  by (simp add: dict_getitem_def)

lemma dict_getitem_None: "map_of d k = None \<Longrightarrow> dict_getitem d k = Inl (KeyError (VStr k))"
  by (simp add: dict_getitem_def)

lemma dict_get_hashable:
  "hashable t \<Longrightarrow> dict_get table t [] = Inr (spec_default_bundle table t)"
  by (cases t) (auto simp: dict_get_def spec_default_bundle_def split: option.splits)

lemma dict_get_unhashable: "\<not> hashable t \<Longrightarrow> dict_get table t dflt = Inl TypeError"
  by (simp add: dict_get_def)

lemma map_of_overlay:
  "distinct (map fst entry) \<Longrightarrow> map_of (dict_update bundle entry) k = spec_overlay bundle entry k"
  by (simp add: map_of_dict_update spec_overlay_def map_add_def split: option.splits)

section \<open>The merge\<close>

lemma store_conf_of_typed:
  "map_of store_dict ''type'' = Some t \<Longrightarrow> hashable t \<Longrightarrow>
   store_conf_of store_dict = Inr (dict_update (spec_default_bundle default_store t) store_dict)"
  by (simp add: store_conf_of_def dict_getitem_Some dict_get_hashable)

lemma loc_conf_of_typed:
  "map_of loc_dict ''type'' = Some t \<Longrightarrow> hashable t \<Longrightarrow>
   loc_conf_of loc_dict = Inr (dict_update (spec_default_bundle default_location t) loc_dict)"
  by (simp add: loc_conf_of_def dict_getitem_Some dict_get_hashable)

lemma distinct_store_bundle: "distinct (map fst (spec_default_bundle default_store t))"
  by (cases t) (auto simp: spec_default_bundle_def default_store_def)

lemma distinct_location_bundle: "distinct (map fst (spec_default_bundle default_location t))"
  by (cases t) (auto simp: spec_default_bundle_def default_location_def)

text \<open>
  C4. For every store entry (a dict that has a \<^verbatim>\<open>type\<close> the table can be asked
  for), the merged configuration is the default bundle of the entry's type overlaid key by
  key with the entry: a key of the entry has the entry's value, any other key the
  bundle's. The entry \<^verbatim>\<open>{'type': 'memory'}\<close> merges to the three memory defaults, all
  0, and the \<^verbatim>\<open>type\<close> key; with \<^verbatim>\<open>max_messages: 50\<close> added, only that key
  differs.
\<close>

theorem store_merge_is_overlay:
  assumes "distinct (map fst store_dict)"
    and "map_of store_dict ''type'' = Some t"
    and "hashable t"
  shows "(\<exists>store_conf. store_conf_of store_dict = Inr store_conf
            \<and> distinct (map fst store_conf)
            \<and> (\<forall>k. map_of store_conf k
                   = spec_overlay (spec_default_bundle default_store t) store_dict k))
         \<and> store_conf_of [(''type'', VStr ''memory'')]
             = Inr [(''min_messages'', VInt 0), (''max_messages'', VInt 0),
                    (''message_timeout'', VInt 0), (''type'', VStr ''memory'')]
         \<and> store_conf_of [(''type'', VStr ''memory''), (''max_messages'', VInt 50)]
             = Inr [(''min_messages'', VInt 0), (''max_messages'', VInt 50),
                    (''message_timeout'', VInt 0), (''type'', VStr ''memory'')]"
proof (intro conjI)
  show "\<exists>store_conf. store_conf_of store_dict = Inr store_conf
            \<and> distinct (map fst store_conf)
            \<and> (\<forall>k. map_of store_conf k
                   = spec_overlay (spec_default_bundle default_store t) store_dict k)"
    using assms
    by (simp add: store_conf_of_typed distinct_dict_update distinct_store_bundle map_of_overlay)
  show "store_conf_of [(''type'', VStr ''memory'')]
             = Inr [(''min_messages'', VInt 0), (''max_messages'', VInt 0),
                    (''message_timeout'', VInt 0), (''type'', VStr ''memory'')]"
    by (simp add: store_conf_of_def dict_getitem_def dict_get_def default_store_def dict_update_def)
  show "store_conf_of [(''type'', VStr ''memory''), (''max_messages'', VInt 50)]
             = Inr [(''min_messages'', VInt 0), (''max_messages'', VInt 50),
                    (''message_timeout'', VInt 0), (''type'', VStr ''memory'')]"
    by (simp add: store_conf_of_def dict_getitem_def dict_get_def default_store_def dict_update_def)
qed

theorem store_merge_is_overlay_witness:
  "\<exists>store_conf. store_conf_of [(''type'', VStr ''redis''), (''host'', VStr ''h'')] = Inr store_conf
      \<and> map_of store_conf ''host'' = Some (VStr ''h'')
      \<and> map_of store_conf ''port'' = Some (VInt 6379)
      \<and> map_of store_conf ''type'' = Some (VStr ''redis'')"
proof -
  let ?e = "[(''type'', VStr ''redis''), (''host'', VStr ''h'')]"
  have "distinct (map fst ?e)" and "map_of ?e ''type'' = Some (VStr ''redis'')"
    and "hashable (VStr ''redis'')"
    by simp_all
  from store_merge_is_overlay [OF this] obtain store_conf
    where "store_conf_of ?e = Inr store_conf"
      and "\<forall>k. map_of store_conf k
              = spec_overlay (spec_default_bundle default_store (VStr ''redis'')) ?e k"
    by blast
  then show ?thesis
    by (simp add: spec_overlay_def spec_default_bundle_def default_store_def)
qed

text \<open>
  C2. The claim as stated fails: an entry with no \<^verbatim>\<open>type\<close> key makes the merge
  itself raise, in \<^verbatim>\<open>store_dict['type']\<close> and \<^verbatim>\<open>loc_dict['type']\<close>, and so
  does a \<^verbatim>\<open>type\<close> that has no hash.
\<close>

theorem merge_raises_without_type:
  "store_conf_of [(''host'', VStr ''h'')] = Inl (KeyError (VStr ''type''))
   \<and> loc_conf_of [(''prefix'', VStr ''/p/'')] = Inl (KeyError (VStr ''type''))
   \<and> make_stores [(''a'', VDict [(''host'', VStr ''h'')])] = Inl (KeyError (VStr ''type''))
   \<and> store_conf_of [(''type'', VList [])] = Inl TypeError"
  by (simp add: store_conf_of_def loc_conf_of_def make_stores_def make_store_of_def
      make_store_def dict_getitem_def dict_get_def)

text \<open>
  C2, amended. For every store entry and every location entry that has a
  \<^verbatim>\<open>type\<close> key with a hashable value, whatever the value and the rest of the entry
  are, the merge completes without an error. An entry with no \<^verbatim>\<open>type\<close> key raises
  KeyError in the merge, and one whose \<^verbatim>\<open>type\<close> has no hash raises TypeError.
\<close>

theorem merge_completes_when_typed:
  "(map_of entry ''type'' = Some t \<and> hashable t \<longrightarrow>
      (\<exists>c. store_conf_of entry = Inr c) \<and> (\<exists>c. loc_conf_of entry = Inr c))
   \<and> (map_of entry ''type'' = Some t \<and> \<not> hashable t \<longrightarrow>
      store_conf_of entry = Inl TypeError \<and> loc_conf_of entry = Inl TypeError)
   \<and> (map_of entry ''type'' = None \<longrightarrow>
      store_conf_of entry = Inl (KeyError (VStr ''type''))
      \<and> loc_conf_of entry = Inl (KeyError (VStr ''type'')))"
  by (simp add: store_conf_of_def loc_conf_of_def dict_getitem_Some dict_getitem_None
      dict_get_hashable dict_get_unhashable)

theorem merge_completes_when_typed_witness:
  "(\<exists>c. store_conf_of [(''type'', VStr ''sqlite''), (''x'', VInt 1)] = Inr c)
   \<and> (\<exists>c. loc_conf_of [(''type'', VStr ''sqlite''), (''x'', VInt 1)] = Inr c)
   \<and> store_conf_of [(''type'', VDict []), (''x'', VInt 1)] = Inl TypeError
   \<and> loc_conf_of [(''x'', VInt 1)] = Inl (KeyError (VStr ''type''))"
  using merge_completes_when_typed [of "[(''type'', VStr ''sqlite''), (''x'', VInt 1)]" "VStr ''sqlite''"]
    merge_completes_when_typed [of "[(''type'', VDict []), (''x'', VInt 1)]" "VDict []"]
    merge_completes_when_typed [of "[(''x'', VInt 1)]" "VNone"]
  by simp

section \<open>The factories\<close>

lemma map_of_merged:
  "distinct (map fst entry) \<Longrightarrow> map_of entry k = Some v \<Longrightarrow>
   map_of (dict_update bundle entry) k = Some v"
  by (simp add: map_of_dict_update)




lemma dict_lookup_absent:
  "hashable key \<Longrightarrow> \<forall>name. key = VStr name \<longrightarrow> map_of d name = None \<Longrightarrow>
   dict_lookup d key = Inl (KeyError key)"
  by (cases key) (auto simp: dict_lookup_def)

lemma map_of_pop_default:
  "map_of (snd (dict_pop_default d k dflt)) = (map_of d)(k := None)"
  by (auto simp: dict_pop_default_def map_of_dict_remove fun_eq_iff split: option.splits)

lemma fst_pop_default:
  "fst (dict_pop_default d k dflt) = (case map_of d k of None \<Rightarrow> dflt | Some v \<Rightarrow> v)"
  by (simp add: dict_pop_default_def split: option.splits)

lemma bind_location_unknown_store:
  assumes "map_of c ''prefix'' = None \<or> (\<exists>p. map_of c ''prefix'' = Some (VStr p))"
    and "map_of c ''store'' = Some store_id"
    and "hashable store_id"
    and "\<forall>name. store_id = VStr name \<longrightarrow> map_of stores name = None"
  shows "bind_location cls c stores = Inl (KeyError store_id)"
proof -
  obtain pv c1 where p: "dict_pop_default c ''prefix'' (VStr []) = (pv, c1)"
    by (cases "dict_pop_default c ''prefix'' (VStr [])")
  have pv: "\<exists>s. pv = VStr s"
    using assms(1) fst_pop_default [of c "''prefix''" "VStr []"] by (auto simp: p)
  then obtain s where s: "pv = VStr s" ..
  have c1: "map_of c1 = (map_of c)(''prefix'' := None)"
    using map_of_pop_default [of c "''prefix''" "VStr []"] by (simp add: p)
  obtain uv c2 where u: "dict_pop_default c1 ''url'' (VStr (s @ ''(.+)'')) = (uv, c2)"
    by (cases "dict_pop_default c1 ''url'' (VStr (s @ ''(.+)''))")
  have c2: "map_of c2 = (map_of c1)(''url'' := None)"
    using map_of_pop_default [of c1 "''url''" "VStr (s @ ''(.+)'')"] by (simp add: u)
  have st: "map_of c2 ''store'' = Some store_id"
    using assms(2) by (simp add: c2 c1)
  show ?thesis
    using assms(3,4)
    by (simp add: bind_location_def p s add_str_def u dict_pop_def st dict_lookup_absent)
qed

lemma make_location_publisher:
  assumes "distinct (map fst loc_dict)"
    and "map_of loc_dict ''type'' = Some (VStr ''publisher'')"
  shows "make_location loc_dict (Some stores)
           = bind_location Publisher
               (dict_remove (dict_update (spec_default_bundle default_location (VStr ''publisher'')) loc_dict) ''type'')
               stores"
  using assms
  by (simp add: make_location_def loc_conf_of_typed dict_pop_def map_of_merged)

lemma make_location_subscriber:
  assumes "distinct (map fst loc_dict)"
    and "map_of loc_dict ''type'' = Some (VStr ''subscriber'')"
    and "spec_overlay (spec_default_bundle default_location (VStr ''subscriber'')) loc_dict ''polling''
           = Some p"
  shows "make_location loc_dict (Some stores)
           = (if p = VStr ''long'' \<or> p = VStr ''interval'' then
                bind_location (if p = VStr ''long'' then LongPollingSubscriber else Subscriber)
                  (dict_remove (dict_remove (dict_update (spec_default_bundle default_location (VStr ''subscriber'')) loc_dict) ''type'') ''polling'')
                  stores
              else Inl (CommandError invalid_polling [p]))"
proof -
  have "map_of (dict_remove (dict_update (spec_default_bundle default_location (VStr ''subscriber'')) loc_dict) ''type'') ''polling'' = Some p"
    using assms(1,3) by (simp add: map_of_dict_remove map_of_overlay)
  then show ?thesis
    using assms(1,2)
    by (simp add: make_location_def loc_conf_of_typed dict_pop_def map_of_merged)
qed

lemma make_location_unknown_store:
  assumes d: "distinct (map fst loc_dict)"
    and t: "map_of loc_dict ''type'' = Some t"
    and dispatch: "t = VStr ''publisher'' \<or>
       (t = VStr ''subscriber'' \<and>
        (spec_overlay (spec_default_bundle default_location t) loc_dict ''polling'' = Some (VStr ''long'')
         \<or> spec_overlay (spec_default_bundle default_location t) loc_dict ''polling'' = Some (VStr ''interval'')))"
    and prefix: "spec_overlay (spec_default_bundle default_location t) loc_dict ''prefix'' = None
       \<or> (\<exists>p. spec_overlay (spec_default_bundle default_location t) loc_dict ''prefix'' = Some (VStr p))"
    and st: "spec_overlay (spec_default_bundle default_location t) loc_dict ''store'' = Some store_id"
    and h: "hashable store_id"
    and absent: "\<forall>name. store_id = VStr name \<longrightarrow> map_of stores name = None"
  shows "make_location loc_dict (Some stores) = Inl (KeyError store_id)"
proof -
  let ?B = "spec_default_bundle default_location t"
  let ?c = "dict_update ?B loc_dict"
  have m: "\<And>k. map_of ?c k = spec_overlay ?B loc_dict k"
    using d by (simp add: map_of_overlay)
  from dispatch show ?thesis
  proof
    assume pub: "t = VStr ''publisher''"
    let ?c1 = "dict_remove ?c ''type''"
    have "bind_location Publisher ?c1 stores = Inl (KeyError store_id)"
      using prefix st h absent
      by (intro bind_location_unknown_store) (simp_all add: map_of_dict_remove m)
    then show ?thesis
      using make_location_publisher [OF d, of stores] t by (simp add: pub)
  next
    assume sub: "t = VStr ''subscriber'' \<and>
        (spec_overlay ?B loc_dict ''polling'' = Some (VStr ''long'')
         \<or> spec_overlay ?B loc_dict ''polling'' = Some (VStr ''interval''))"
    then obtain p where p: "spec_overlay ?B loc_dict ''polling'' = Some p"
      and pv: "p = VStr ''long'' \<or> p = VStr ''interval''"
      by blast
    let ?c2 = "dict_remove (dict_remove ?c ''type'') ''polling''"
    have "\<And>cls. bind_location cls ?c2 stores = Inl (KeyError store_id)"
      using prefix st h absent
      by (intro bind_location_unknown_store) (simp_all add: map_of_dict_remove m)
    then show ?thesis
      using make_location_subscriber [of loc_dict p stores] d t p pv sub by auto
  qed
qed

section \<open>Building all stores\<close>

lemma dict_setitem_new: "k \<notin> fst ` set d \<Longrightarrow> dict_setitem d k v = d @ [(k, v)]"
  by (induction d) auto

lemma dict_update_distinct:
  "distinct (map fst (d @ ps)) \<Longrightarrow> dict_update d ps = d @ ps"
  unfolding dict_update_def
proof (induction ps arbitrary: d)
  case Nil
  then show ?case by simp
next
  case (Cons p ps)
  obtain k v where p: "p = (k, v)" by (cases p)
  from Cons.prems have k: "k \<notin> fst ` set d" by (auto simp: p)
  from Cons.prems have "distinct (map fst ((d @ [(k, v)]) @ ps))" by (simp add: p)
  from Cons.IH [OF this] show ?case
    by (simp add: p dict_setitem_new [OF k])
qed

lemma dict_of_pairs_distinct: "distinct (map fst ps) \<Longrightarrow> dict_of_pairs ps = ps"
  using dict_update_distinct [of "[]" ps] by (simp add: dict_of_pairs_def)

lemma make_store_pairs_keys:
  "make_store_pairs sd ks = Inr rs \<Longrightarrow> map fst rs = ks"
proof (induction ks arbitrary: rs)
  case Nil
  then show ?case by simp
next
  case (Cons k ks)
  then show ?case
    by (cases "dict_getitem sd k"; cases "make_store_of (projr (dict_getitem sd k))";
        cases "make_store_pairs sd ks") auto
qed

lemma make_store_pairs_Inr_iff:
  "make_store_pairs sd ks = Inr rs \<longleftrightarrow>
   list_all2 (\<lambda>k (k', r). k' = k \<and> (\<exists>v. map_of sd k = Some v \<and> make_store_of v = Inr r)) ks rs"
proof (induction ks arbitrary: rs)
  case Nil
  then show ?case by auto
next
  case (Cons k ks)
  show ?case
  proof (cases "map_of sd k")
    case None
    then show ?thesis
      by (auto simp: dict_getitem_def list_all2_Cons1)
  next
    case (Some v)
    show ?thesis
    proof (cases "make_store_of v")
      case (Inl e)
      then show ?thesis using Some
        by (auto simp: dict_getitem_def list_all2_Cons1)
    next
      case (Inr r)
      show ?thesis
      proof (cases "make_store_pairs sd ks")
        case (Inl e)
        then show ?thesis using Some Inr Cons.IH
          by (auto simp: dict_getitem_def list_all2_Cons1)
      next
        case rest: (Inr rest)
        have step: "make_store_pairs sd (k # ks) = Inr ((k, r) # rest)"
          by (simp add: dict_getitem_def Some Inr rest)
        have tl: "list_all2 (\<lambda>k (k', r). k' = k \<and> (\<exists>v. map_of sd k = Some v \<and> make_store_of v = Inr r)) ks zs
                    \<longleftrightarrow> zs = rest" for zs
          using Cons.IH [of zs] rest by auto
        show ?thesis
          unfolding step using Some Inr by (auto simp: tl list_all2_Cons1)
      qed
    qed
  qed
qed

lemma list_all2_keys_items:
  assumes "distinct (map fst sd)"
  shows "list_all2 (\<lambda>k (k', r). k' = k \<and> (\<exists>v. map_of sd k = Some v \<and> P v r)) (map fst sd) rs
     \<longleftrightarrow> list_all2 (\<lambda>(k, v) (k', r). k' = k \<and> P v r) sd rs"
proof -
  have "\<And>i. i < length sd \<Longrightarrow> map_of sd (fst (sd ! i)) = Some (snd (sd ! i))"
    using assms by simp
  then show ?thesis
    by (auto simp: list_all2_conv_all_nth split_beta)
qed

lemma make_stores_named:
  assumes "''type'' \<notin> fst ` set sd" and "distinct (map fst sd)"
  shows "make_stores sd = Inr stores \<longleftrightarrow>
         list_all2 (\<lambda>(k, v) (k', r). k' = k \<and> make_store_of v = Inr r) sd stores"
proof -
  have iff: "\<And>rs. make_store_pairs sd (map fst sd) = Inr rs \<longleftrightarrow>
         list_all2 (\<lambda>(k, v) (k', r). k' = k \<and> make_store_of v = Inr r) sd rs"
    using list_all2_keys_items [OF assms(2), of "\<lambda>v r. make_store_of v = Inr r"]
    by (simp add: make_store_pairs_Inr_iff)
  show ?thesis
  proof (cases "make_store_pairs sd (map fst sd)")
    case (Inl e)
    then show ?thesis using assms(1) iff [of stores]
      by (simp add: make_stores_def)
  next
    case (Inr rs)
    then have "map fst rs = map fst sd" by (rule make_store_pairs_keys)
    then have "dict_of_pairs rs = rs"
      using assms(2) by (simp add: dict_of_pairs_distinct)
    then show ?thesis using assms(1) iff [of stores] Inr
      by (auto simp: make_stores_def)
  qed
qed

lemma make_stores_single:
  assumes "''type'' \<in> fst ` set sd"
  shows "make_stores sd = (case make_store sd of Inl e \<Rightarrow> Inl e | Inr r \<Rightarrow> Inr [(''default'', r)])"
  using assms
  by (simp add: make_stores_def dict_getitem_def make_store_of_def dict_of_pairs_def
      dict_update_def split: sum.splits)

text \<open>
  A store value that is a tuple or list gives no stores unless it is empty: every item is
  used as an index, so it would have to be an integer, and also as a store, so it would
  have to be a dict.
\<close>

lemma seq_at_in_set: "seq_at xs i = Inr v \<Longrightarrow> v \<in> set xs"
  by (auto simp: seq_at_def split: if_splits)

lemma seq_getitem_Inr:
  "seq_getitem xs k = Inr v \<Longrightarrow> v \<in> set xs \<and> ((\<exists>i. k = VInt i) \<or> (\<exists>b. k = VBool b))"
  by (cases k) (auto simp: seq_getitem_def dest: seq_at_in_set)

lemma make_store_items_Inr:
  "make_store_items xs ks = Inr u \<Longrightarrow> k \<in> set ks \<Longrightarrow>
   \<exists>d. seq_getitem xs k = Inr (VDict d)"
proof (induction ks)
  case Nil
  then show ?case by simp
next
  case (Cons x ks)
  from Cons.prems(1) obtain v r where v: "seq_getitem xs x = Inr v"
    and r: "make_store_of v = Inr r" and rest: "make_store_items xs ks = Inr u"
    by (cases "seq_getitem xs x"; cases "make_store_of (projr (seq_getitem xs x))") auto
  from r obtain d where "v = VDict d"
    by (cases v) (auto simp: make_store_of_def)
  with v Cons.IH [OF rest] Cons.prems(2) show ?case by auto
qed

lemma make_stores_seq_nonempty:
  assumes "xs \<noteq> []"
  shows "\<exists>e. make_stores_seq xs = Inl e"
proof (cases "make_store_items xs xs")
  case (Inl e)
  then show ?thesis by (simp add: make_stores_seq_def)
next
  case (Inr u)
  from assms obtain k where k: "k \<in> set xs" by (cases xs) auto
  from make_store_items_Inr [OF Inr k] obtain d where d: "seq_getitem xs k = Inr (VDict d)" ..
  then have "VDict d \<in> set xs" by (auto dest: seq_getitem_Inr)
  from make_store_items_Inr [OF Inr this] obtain d' where "seq_getitem xs (VDict d) = Inr (VDict d')" ..
  then show ?thesis by (simp add: seq_getitem_def)
qed

section \<open>Assembly\<close>


lemma map_make_location_fail:
  "v \<in> set items \<Longrightarrow> make_location_of v (Some stores) = Inl e \<Longrightarrow>
   \<exists>e'. map_make_location stores items = Inl e'"
proof (induction items)
  case Nil
  then show ?case by simp
next
  case (Cons x items)
  show ?case
  proof (cases "make_location_of x (Some stores)")
    case (Inl e')
    then show ?thesis by simp
  next
    case (Inr b)
    with Cons obtain e' where "map_make_location stores items = Inl e'" by auto
    with Inr show ?thesis by simp
  qed
qed

lemma assemble_location_fail:
  assumes "map_of (conf_of self settings) ''store'' = Some sv"
    and "make_stores_of sv = Inr stores"
    and "map_of (conf_of self settings) ''locations'' = Some lv"
    and "py_iter lv = Inr items"
    and "v \<in> set items"
    and "make_location_of v (Some stores) = Inl e"
  shows "\<exists>e'. assemble self settings = Inl e'"
proof -
  from map_make_location_fail [OF assms(5,6)] obtain e'
    where "map_make_location stores items = Inl e'" ..
  then show ?thesis
    using assms(1-4) by (simp add: assemble_def dict_getitem_Some)
qed

lemma make_stores_named_fail:
  assumes "''type'' \<notin> fst ` set sd" and "distinct (map fst sd)"
    and "(k, v) \<in> set sd" and "make_store_of v = Inl e"
  shows "\<exists>e'. make_stores sd = Inl e'"
proof (cases "make_stores sd")
  case (Inl e')
  then show ?thesis by blast
next
  case (Inr stores)
  then have "list_all2 (\<lambda>(k, v) (k', r). k' = k \<and> make_store_of v = Inr r) sd stores"
    using make_stores_named [OF assms(1,2)] by simp
  with assms(3) obtain x where "(\<lambda>(k, v) (k', r). k' = k \<and> make_store_of v = Inr r) (k, v) x"
    by (auto simp: list_all2_conv_all_nth in_set_conv_nth)
  with assms(4) show ?thesis by (cases x) simp
qed

text \<open>
  C5. A stores value that has the key \<^verbatim>\<open>type\<close> is one store configuration, and the
  result has the one name \<^verbatim>\<open>default\<close>, bound to what \<^verbatim>\<open>make_store\<close> makes of
  the whole value. Otherwise the result has the keys of the value, in their order, each
  bound to what \<^verbatim>\<open>make_store\<close> makes of the key's own value.
\<close>

theorem make_stores_single_or_named:
  assumes "distinct (map fst stores_dict)"
  shows "(''type'' \<in> fst ` set stores_dict \<longrightarrow>
            make_stores stores_dict
              = (case make_store stores_dict of
                   Inl e \<Rightarrow> Inl e
                 | Inr r \<Rightarrow> Inr [(''default'', r)]))
       \<and> (''type'' \<notin> fst ` set stores_dict \<longrightarrow>
            (\<forall>stores. make_stores stores_dict = Inr stores \<longleftrightarrow>
               list_all2 (\<lambda>(name, v) (name', r). name' = name \<and> make_store_of v = Inr r)
                 stores_dict stores))"
  using assms make_stores_single [of stores_dict] make_stores_named [of stores_dict]
  by blast

theorem make_stores_single_or_named_witness:
  "make_stores [(''type'', VStr ''redis''), (''host'', VStr ''h'')]
     = Inr [(''default'',
         \<lparr>store = Store RedisStore
            [(''port'', VInt 6379), (''host'', VStr ''h''), (''key_prefix'', VStr []),
             (''database'', VInt 0)],
          registry = Registry (Store RedisStore
            [(''port'', VInt 6379), (''host'', VStr ''h''), (''key_prefix'', VStr []),
             (''database'', VInt 0)])\<rparr>)]
   \<and> make_stores [(''a'', VDict [(''type'', VStr ''memory'')]),
                   (''b'', VDict [(''type'', VStr ''redis''), (''host'', VStr ''h'')])]
     = Inr [(''a'',
         \<lparr>store = Store MemoryStore
            [(''min_messages'', VInt 0), (''max_messages'', VInt 0), (''message_timeout'', VInt 0)],
          registry = Registry (Store MemoryStore
            [(''min_messages'', VInt 0), (''max_messages'', VInt 0), (''message_timeout'', VInt 0)])\<rparr>),
        (''b'',
         \<lparr>store = Store RedisStore
            [(''port'', VInt 6379), (''host'', VStr ''h''), (''key_prefix'', VStr []),
             (''database'', VInt 0)],
          registry = Registry (Store RedisStore
            [(''port'', VInt 6379), (''host'', VStr ''h''), (''key_prefix'', VStr []),
             (''database'', VInt 0)])\<rparr>)]"
proof -
  have m: "make_store [(''type'', VStr ''memory'')]
     = Inr \<lparr>store = Store MemoryStore
            [(''min_messages'', VInt 0), (''max_messages'', VInt 0), (''message_timeout'', VInt 0)],
          registry = Registry (Store MemoryStore
            [(''min_messages'', VInt 0), (''max_messages'', VInt 0), (''message_timeout'', VInt 0)])\<rparr>"
    by (simp add: make_store_def store_conf_of_def dict_getitem_def dict_get_def
        default_store_def dict_update_def dict_pop_def dict_remove_def Let_def)
  have r: "make_store [(''type'', VStr ''redis''), (''host'', VStr ''h'')]
     = Inr \<lparr>store = Store RedisStore
            [(''port'', VInt 6379), (''host'', VStr ''h''), (''key_prefix'', VStr []),
             (''database'', VInt 0)],
          registry = Registry (Store RedisStore
            [(''port'', VInt 6379), (''host'', VStr ''h''), (''key_prefix'', VStr []),
             (''database'', VInt 0)])\<rparr>"
    by (simp add: make_store_def store_conf_of_def dict_getitem_def dict_get_def
        default_store_def dict_update_def dict_pop_def dict_remove_def Let_def)
  show ?thesis
    using make_stores_single_or_named [of "[(''type'', VStr ''redis''), (''host'', VStr ''h'')]"]
      make_stores_single_or_named [of "[(''a'', VDict [(''type'', VStr ''memory'')]),
                   (''b'', VDict [(''type'', VStr ''redis''), (''host'', VStr ''h'')])]"]
    by (simp add: m r make_store_of_def)
qed

section \<open>Evaluation\<close>

lemmas dict_defs =
  dict_update_def dict_getitem_def dict_get_def dict_pop_def dict_pop_default_def
  dict_remove_def dict_lookup_def dict_of_pairs_def add_str_def Let_def

lemmas store_defs =
  make_stores_of_def make_stores_def make_store_of_def make_store_def store_conf_of_def
  default_store_def

lemmas location_defs =
  make_location_of_def make_location_def loc_conf_of_def default_location_def
  bind_location_def py_iter_def

lemmas conf_defs = conf_of_def defaults_def DEFAULT_PORT_def

lemma run_result: "result (run self settings) = assemble self settings"
  by (simp add: run_def)



text \<open>
  C1. The claim as stated fails: a location whose store is not in the store map makes
  \<^verbatim>\<open>stores[store_id]\<close> raise KeyError, which is not a CommandError, and
  \<^verbatim>\<open>run\<close> ends with that KeyError.
\<close>

theorem unknown_store_is_KeyError:
  "make_location [(''type'', VStr ''publisher''), (''store'', VStr ''nope'')]
     (Some [(''default'',
        \<lparr>store = Store MemoryStore
           [(''min_messages'', VInt 0), (''max_messages'', VInt 0), (''message_timeout'', VInt 0)],
         registry = Registry (Store MemoryStore
           [(''min_messages'', VInt 0), (''max_messages'', VInt 0), (''message_timeout'', VInt 0)])\<rparr>)])
     = Inl (KeyError (VStr ''nope''))
   \<and> \<not> is_command_error (KeyError (VStr ''nope''))
   \<and> result (run \<lparr>addr = ''127.0.0.1'', port = ''8001'', use_ipv6 = False, raw_ipv6 = False\<rparr>
         (Some [(''locations'',
            VTuple [VDict [(''type'', VStr ''publisher''), (''store'', VStr ''nope'')]])]))
     = Inl (KeyError (VStr ''nope''))"
  by (simp add: run_result assemble_def conf_defs store_defs location_defs dict_defs
      is_command_error_def)

text \<open>
  C1, amended. For every location whose merged configuration passes the dispatch on
  \<^verbatim>\<open>type\<close> and \<^verbatim>\<open>polling\<close>, has no \<^verbatim>\<open>prefix\<close> or a string for it, and
  has a hashable \<^verbatim>\<open>store\<close> that is not a key of the store map, the location factory
  raises KeyError with that store as its key; and when the location is one of the
  configuration's, \<^verbatim>\<open>run\<close> ends with an error, and \<^verbatim>\<open>listen\<close> is not called.
\<close>

theorem unknown_store_raises_KeyError:
  assumes "distinct (map fst loc_dict)"
    and "map_of loc_dict ''type'' = Some t"
    and "t = VStr ''publisher'' \<or>
       (t = VStr ''subscriber'' \<and>
        (spec_overlay (spec_default_bundle default_location t) loc_dict ''polling'' = Some (VStr ''long'')
         \<or> spec_overlay (spec_default_bundle default_location t) loc_dict ''polling'' = Some (VStr ''interval'')))"
    and "spec_overlay (spec_default_bundle default_location t) loc_dict ''prefix'' = None
       \<or> (\<exists>p. spec_overlay (spec_default_bundle default_location t) loc_dict ''prefix'' = Some (VStr p))"
    and "spec_overlay (spec_default_bundle default_location t) loc_dict ''store'' = Some store_id"
    and "hashable store_id"
    and "\<forall>name. store_id = VStr name \<longrightarrow> map_of stores name = None"
  shows "make_location loc_dict (Some stores) = Inl (KeyError store_id)
       \<and> (map_of (conf_of self settings) ''store'' = Some sv
            \<and> make_stores_of sv = Inr stores
            \<and> map_of (conf_of self settings) ''locations'' = Some lv
            \<and> py_iter lv = Inr items
            \<and> VDict loc_dict \<in> set items \<longrightarrow>
            (\<exists>e. result (run self settings) = Inl e))"
proof (intro conjI impI)
  show k: "make_location loc_dict (Some stores) = Inl (KeyError store_id)"
    using assms by (rule make_location_unknown_store)
  assume a: "map_of (conf_of self settings) ''store'' = Some sv
            \<and> make_stores_of sv = Inr stores
            \<and> map_of (conf_of self settings) ''locations'' = Some lv
            \<and> py_iter lv = Inr items
            \<and> VDict loc_dict \<in> set items"
  have "make_location_of (VDict loc_dict) (Some stores) = Inl (KeyError store_id)"
    using k by (simp add: make_location_of_def)
  with a assemble_location_fail [of self settings sv stores lv items "VDict loc_dict" "KeyError store_id"]
  show "\<exists>e. result (run self settings) = Inl e"
    by (simp add: run_result)
qed

theorem unknown_store_raises_KeyError_witness:
  "make_location [(''type'', VStr ''subscriber''), (''polling'', VStr ''interval''),
                  (''store'', VStr ''b'')]
     (Some [(''default'',
        \<lparr>store = Store MemoryStore
           [(''min_messages'', VInt 0), (''max_messages'', VInt 0), (''message_timeout'', VInt 0)],
         registry = Registry (Store MemoryStore
           [(''min_messages'', VInt 0), (''max_messages'', VInt 0), (''message_timeout'', VInt 0)])\<rparr>)])
     = Inl (KeyError (VStr ''b''))
   \<and> (\<exists>e. result (run \<lparr>addr = ''127.0.0.1'', port = ''8001'', use_ipv6 = False, raw_ipv6 = False\<rparr>
         (Some [(''locations'',
            VTuple [VDict [(''type'', VStr ''subscriber''), (''polling'', VStr ''interval''),
                  (''store'', VStr ''b'')]])]))
     = Inl e)"
proof -
  let ?self = "\<lparr>addr = ''127.0.0.1'', port = ''8001'', use_ipv6 = False, raw_ipv6 = False\<rparr>"
  let ?l = "[(''type'', VStr ''subscriber''), (''polling'', VStr ''interval''),
             (''store'', VStr ''b'')]"
  let ?st = "Store MemoryStore
      [(''min_messages'', VInt 0), (''max_messages'', VInt 0), (''message_timeout'', VInt 0)]"
  let ?stores = "[(''default'', \<lparr>store = ?st, registry = Registry ?st\<rparr>)]"
  let ?t = "VStr ''subscriber''"
  let ?set = "Some [(''locations'', VTuple [VDict ?l])]"
  have h1: "distinct (map fst ?l)" and h2: "map_of ?l ''type'' = Some ?t"
    by simp_all
  have h3: "?t = VStr ''publisher'' \<or>
       (?t = VStr ''subscriber'' \<and>
        (spec_overlay (spec_default_bundle default_location ?t) ?l ''polling'' = Some (VStr ''long'')
         \<or> spec_overlay (spec_default_bundle default_location ?t) ?l ''polling'' = Some (VStr ''interval'')))"
    by (simp add: spec_overlay_def)
  have h4: "spec_overlay (spec_default_bundle default_location ?t) ?l ''prefix'' = None
       \<or> (\<exists>p. spec_overlay (spec_default_bundle default_location ?t) ?l ''prefix'' = Some (VStr p))"
    by (simp add: spec_overlay_def spec_default_bundle_def default_location_def)
  have h5: "spec_overlay (spec_default_bundle default_location ?t) ?l ''store'' = Some (VStr ''b'')"
    by (simp add: spec_overlay_def)
  have h6: "hashable (VStr ''b'')" by simp
  have h7: "\<forall>name. VStr ''b'' = VStr name \<longrightarrow> map_of ?stores name = None" by simp
  have c: "map_of (conf_of ?self ?set) ''store'' = Some (VDict [(''type'', VStr ''memory'')])"
    "map_of (conf_of ?self ?set) ''locations'' = Some (VTuple [VDict ?l])"
    by (simp_all add: conf_defs dict_defs)
  have b: "make_stores_of (VDict [(''type'', VStr ''memory'')]) = Inr ?stores"
    by (simp add: store_defs dict_defs)
  have i: "py_iter (VTuple [VDict ?l]) = Inr [VDict ?l]"
    by (simp add: py_iter_def)
  from unknown_store_raises_KeyError [OF h1 h2 h3 h4 h5 h6 h7, where self = ?self
      and settings = ?set and sv = "VDict [(''type'', VStr ''memory'')]"
      and lv = "VTuple [VDict ?l]" and items = "[VDict ?l]"]
  show ?thesis
    using c b i by simp
qed



section \<open>The address resolver\<close>

lemma handle_resolved:
  "(ipv6_opt \<longrightarrow> ipv6_ok) \<Longrightarrow> resolve_addrport naiveip_re addrport ipv6_opt = Inr self \<Longrightarrow>
   handle naiveip_re ipv6_ok settings addrport [] ipv6_opt = run self settings"
  by (auto simp: handle_def)

lemma handle_unresolved:
  "resolve_addrport naiveip_re addrport ipv6_opt = Inl e \<Longrightarrow>
   \<exists>e'. handle naiveip_re ipv6_ok settings addrport args ipv6_opt = \<lparr>written = [], result = Inl e'\<rparr>"
  by (simp add: handle_def)

lemma written_run:
  "written (run self settings)
     = [''http://'' @ (if raw_ipv6 self then ''['' @ addr self @ '']'' else addr self)
          @ '':'' @ port self @ ''/'']"
  by (simp add: run_def running_at_def shown_addr_def)

text \<open>
  C7. For the empty string the resolver gives the port \<^verbatim>\<open>8001\<close>, the host
  \<^verbatim>\<open>127.0.0.1\<close>, or \<^verbatim>\<open>::1\<close> when IPv6 is asked for, and a raw-IPv6 flag equal to
  the IPv6 flag, and \<^verbatim>\<open>handle\<close> runs the server with these. The same host and flag
  are given whenever the match has no host, or an empty one.
\<close>

theorem empty_host_defaults:
  "resolve_addrport naiveip_re [] ipv6_opt
     = Inr \<lparr>addr = (if ipv6_opt then ''::1'' else ''127.0.0.1''), port = ''8001'',
            use_ipv6 = ipv6_opt, raw_ipv6 = ipv6_opt\<rparr>
   \<and> ((ipv6_opt \<longrightarrow> ipv6_ok) \<longrightarrow>
        handle naiveip_re ipv6_ok settings [] [] ipv6_opt
          = run \<lparr>addr = (if ipv6_opt then ''::1'' else ''127.0.0.1''), port = ''8001'',
                  use_ipv6 = ipv6_opt, raw_ipv6 = ipv6_opt\<rparr> settings)
   \<and> (addrport \<noteq> [] \<and> naiveip_re addrport = Some (a, ipv4_grp, ipv6_grp, fqdn_grp, Some p)
        \<and> isdigit p \<and> \<not> truthy a \<longrightarrow>
        resolve_addrport naiveip_re addrport ipv6_opt
          = Inr \<lparr>addr = (if ipv6_opt then ''::1'' else ''127.0.0.1''), port = p,
                 use_ipv6 = ipv6_opt, raw_ipv6 = ipv6_opt\<rparr>)"
proof (intro conjI impI)
  show e: "resolve_addrport naiveip_re [] ipv6_opt
     = Inr \<lparr>addr = (if ipv6_opt then ''::1'' else ''127.0.0.1''), port = ''8001'',
            use_ipv6 = ipv6_opt, raw_ipv6 = ipv6_opt\<rparr>"
    by (simp add: resolve_addrport_def parse_addrport_def truthy_def DEFAULT_PORT_def)
  assume "ipv6_opt \<longrightarrow> ipv6_ok"
  then show "handle naiveip_re ipv6_ok settings [] [] ipv6_opt
          = run \<lparr>addr = (if ipv6_opt then ''::1'' else ''127.0.0.1''), port = ''8001'',
                  use_ipv6 = ipv6_opt, raw_ipv6 = ipv6_opt\<rparr> settings"
    using e by (rule handle_resolved)
next
  assume "addrport \<noteq> [] \<and> naiveip_re addrport = Some (a, ipv4_grp, ipv6_grp, fqdn_grp, Some p)
        \<and> isdigit p \<and> \<not> truthy a"
  then show "resolve_addrport naiveip_re addrport ipv6_opt
          = Inr \<lparr>addr = (if ipv6_opt then ''::1'' else ''127.0.0.1''), port = p,
                 use_ipv6 = ipv6_opt, raw_ipv6 = ipv6_opt\<rparr>"
    by (cases a) (auto simp: resolve_addrport_def parse_addrport_def truthy_def)
qed

theorem empty_host_defaults_witness:
  "resolve_addrport (\<lambda>s. Some (None, None, None, None, Some ''8000'')) [] True
     = Inr \<lparr>addr = ''::1'', port = ''8001'', use_ipv6 = True, raw_ipv6 = True\<rparr>
   \<and> handle (\<lambda>s. Some (None, None, None, None, Some ''8000'')) True None [] [] True
     = run \<lparr>addr = ''::1'', port = ''8001'', use_ipv6 = True, raw_ipv6 = True\<rparr> None
   \<and> resolve_addrport (\<lambda>s. Some (None, None, None, None, Some ''8000'')) ''8000'' False
     = Inr \<lparr>addr = ''127.0.0.1'', port = ''8000'', use_ipv6 = False, raw_ipv6 = False\<rparr>"
proof -
  let ?re = "\<lambda>s::string. Some (None::string option, None::string option, None::string option,
                None::string option, Some ''8000'')"
  have d: "isdigit ''8000''" by (simp add: isdigit_def)
  have t: "\<not> truthy None" by (simp add: truthy_def)
  show ?thesis
    using empty_host_defaults [of ?re True True None "''8000''" None None None None "''8000''"]
      empty_host_defaults [of ?re False True None "''8000''" None None None None "''8000''"]
      d t
    by simp
qed

text \<open>
  C8. When the host of the match is a bracketed literal and the \<^verbatim>\<open>ipv6\<close> group took
  part in the match, the resolver gives the literal without its brackets as the host
  (the default IPv6 host when nothing is left) and sets both the IPv6 flag and the
  raw-IPv6 flag. The address \<^verbatim>\<open>run\<close> announces has the host in brackets when the
  raw-IPv6 flag is set, and the bare host otherwise.
\<close>

theorem bracketed_ipv6_literal:
  assumes "addrport \<noteq> []"
    and "naiveip_re addrport = Some (Some (''['' @ body @ '']''), ipv4_grp, ipv6_grp, fqdn_grp, Some p)"
    and "truthy ipv6_grp"
    and "isdigit p"
  shows "resolve_addrport naiveip_re addrport ipv6_opt
           = Inr \<lparr>addr = (if body = [] then ''::1'' else body), port = p,
                  use_ipv6 = True, raw_ipv6 = True\<rparr>
       \<and> (raw_ipv6 self \<longrightarrow>
            written (run self settings) = [''http://['' @ addr self @ '']:'' @ port self @ ''/''])
       \<and> (\<not> raw_ipv6 self \<longrightarrow>
            written (run self settings) = [''http://'' @ addr self @ '':'' @ port self @ ''/''])
       \<and> ((ipv6_opt \<longrightarrow> ipv6_ok) \<and> body \<noteq> [] \<longrightarrow>
            written (handle naiveip_re ipv6_ok settings addrport [] ipv6_opt)
              = [''http://['' @ body @ '']:'' @ p @ ''/''])"
proof (intro conjI impI)
  have b: "butlast (tl (''['' @ body @ '']'')) = body" by simp
  show r: "resolve_addrport naiveip_re addrport ipv6_opt
           = Inr \<lparr>addr = (if body = [] then ''::1'' else body), port = p,
                  use_ipv6 = True, raw_ipv6 = True\<rparr>"
    using assms by (simp add: resolve_addrport_def parse_addrport_def b truthy_def)
  show "written (run self settings) = [''http://['' @ addr self @ '']:'' @ port self @ ''/'']"
    if "raw_ipv6 self"
    using that by (simp add: written_run)
  show "written (run self settings) = [''http://'' @ addr self @ '':'' @ port self @ ''/'']"
    if "\<not> raw_ipv6 self"
    using that by (simp add: written_run)
  show "written (handle naiveip_re ipv6_ok settings addrport [] ipv6_opt)
              = [''http://['' @ body @ '']:'' @ p @ ''/'']"
    if "(ipv6_opt \<longrightarrow> ipv6_ok) \<and> body \<noteq> []"
    using that handle_resolved [OF _ r, of ipv6_ok settings] by (simp add: written_run)
qed

theorem bracketed_ipv6_literal_witness:
  "resolve_addrport (\<lambda>s. Some (Some ''[::1]'', None, Some ''[::1]'', None, Some ''8000''))
       ''[::1]:8000'' False
     = Inr \<lparr>addr = ''::1'', port = ''8000'', use_ipv6 = True, raw_ipv6 = True\<rparr>
   \<and> written (run \<lparr>addr = ''::1'', port = ''8000'', use_ipv6 = True, raw_ipv6 = True\<rparr> None)
     = [''http://[::1]:8000/'']
   \<and> written (run \<lparr>addr = ''::1'', port = ''8000'', use_ipv6 = True, raw_ipv6 = False\<rparr> None)
     = [''http://::1:8000/'']
   \<and> written (handle (\<lambda>s. Some (Some ''[::1]'', None, Some ''[::1]'', None, Some ''8000''))
        False None ''[::1]:8000'' [] False)
     = [''http://[::1]:8000/'']"
proof -
  let ?re = "\<lambda>s::string. Some (Some ''[::1]'', None::string option, Some ''[::1]'',
                None::string option, Some ''8000'')"
  have h: "''[::1]:8000'' \<noteq> []"
    "?re ''[::1]:8000'' = Some (Some (''['' @ ''::1'' @ '']''), None, Some ''[::1]'', None, Some ''8000'')"
    "truthy (Some ''[::1]'')" "isdigit ''8000''"
    by (simp_all add: truthy_def isdigit_def)
  show ?thesis
    using bracketed_ipv6_literal [where ipv6_opt = False and ipv6_ok = False and settings = None
        and self = "\<lparr>addr = ''::1'', port = ''8000'', use_ipv6 = True, raw_ipv6 = True\<rparr>", OF h]
      bracketed_ipv6_literal [where ipv6_opt = False and ipv6_ok = False and settings = None
        and self = "\<lparr>addr = ''::1'', port = ''8000'', use_ipv6 = True, raw_ipv6 = False\<rparr>", OF h]
    by simp
qed



section \<open>Statements that leave the existing objects unchanged\<close>

lemma unchanged_refl: "unchanged n h h"
  by (simp add: unchanged_def)

lemma unchanged_trans: "unchanged n h h' \<Longrightarrow> unchanged n h' h'' \<Longrightarrow> unchanged n h h''"
  by (simp add: unchanged_def)

lemma keepsI:
  assumes "\<And>h r h'. n \<le> length h \<Longrightarrow> m h = (r, h') \<Longrightarrow>
             unchanged n h h' \<and> (\<forall>x. r = Inr x \<longrightarrow> Q x)"
  shows "keeps n m Q"
  unfolding keeps_def
proof (intro allI impI)
  fix h :: heap
  assume n: "n \<le> length h"
  obtain r h' where m: "m h = (r, h')" by (cases "m h")
  from assms [OF n m] show "case m h of (r, h') \<Rightarrow>
      unchanged n h h' \<and> (case r of Inl e \<Rightarrow> True | Inr x \<Rightarrow> Q x)"
    by (simp add: m split: sum.splits)
qed

lemma keepsD:
  assumes "keeps n m Q" and "n \<le> length h" and "m h = (r, h')"
  shows "unchanged n h h'" and "\<And>x. r = Inr x \<Longrightarrow> Q x"
  using assms by (auto simp: keeps_def split: sum.splits)

lemma keeps_return: "Q x \<Longrightarrow> keeps n (h_return x) Q"
  by (rule keepsI) (auto simp: h_return_def unchanged_def)

lemma keeps_raise: "keeps n (h_raise e) Q"
  by (rule keepsI) (auto simp: h_raise_def unchanged_def)

lemma keeps_weaken: "keeps n m P \<Longrightarrow> (\<And>x. P x \<Longrightarrow> Q x) \<Longrightarrow> keeps n m Q"
  by (rule keepsI) (auto dest: keepsD)

lemma keeps_bind:
  assumes m: "keeps n m P" and f: "\<And>x. P x \<Longrightarrow> keeps n (f x) Q"
  shows "keeps n (h_bind m f) Q"
proof (rule keepsI)
  fix h r h'
  assume n: "n \<le> length h" and b: "h_bind m f h = (r, h')"
  obtain r1 h1 where m1: "m h = (r1, h1)" by (cases "m h")
  note u1 = keepsD(1) [OF m n m1]
  show "unchanged n h h' \<and> (\<forall>x. r = Inr x \<longrightarrow> Q x)"
  proof (cases r1)
    case (Inl e)
    with b m1 u1 show ?thesis by (auto simp: h_bind_def)
  next
    case (Inr x)
    then have P: "P x" using keepsD(2) [OF m n m1] by simp
    from b m1 Inr have fx: "f x h1 = (r, h')" by (simp add: h_bind_def)
    from u1 n have n1: "n \<le> length h1" by (simp add: unchanged_def)
    from keepsD [OF f [OF P] n1 fx] u1 show ?thesis
      by (auto intro: unchanged_trans)
  qed
qed

lemma keeps_alloc: "keeps n (h_alloc ob) (\<lambda>a. n \<le> a)"
  by (rule keepsI) (auto simp: h_alloc_def unchanged_def)

lemma keeps_items: "keeps n (h_items a) (\<lambda>d. True)"
  by (rule keepsI) (auto simp: h_items_def unchanged_def split: option.splits)

lemma keeps_store: "n \<le> a \<Longrightarrow> keeps n (h_store a d) (\<lambda>u. True)"
  by (rule keepsI) (auto simp: h_store_def unchanged_def)

lemma keeps_getitem: "keeps n (h_getitem a k) (\<lambda>v. True)"
  unfolding h_getitem_def
  by (rule keeps_bind [OF keeps_items]) (simp add: keeps_raise keeps_return split: option.splits)

lemma keeps_lookup: "keeps n (h_lookup a key) (\<lambda>v. True)"
  unfolding h_lookup_def
  by (rule keeps_bind [OF keeps_items])
     (simp add: keeps_raise keeps_return split: option.splits hval.splits)

lemma keeps_get: "keeps n (h_get a key dflt) (\<lambda>v. True)"
  unfolding h_get_def
  by (rule keeps_bind [OF keeps_items])
     (simp add: keeps_raise keeps_return split: option.splits hval.splits)

lemma keeps_copy: "keeps n (h_copy v) (\<lambda>a. n \<le> a)"
  unfolding h_copy_def
  by (cases v) (auto intro: keeps_raise keeps_bind [OF keeps_items] keeps_alloc)

lemma keeps_update: "n \<le> a \<Longrightarrow> keeps n (h_update a b) (\<lambda>u. True)"
  unfolding h_update_def
  by (intro keeps_bind [OF keeps_items] keeps_store)

lemma keeps_pop: "n \<le> a \<Longrightarrow> keeps n (h_pop a k) (\<lambda>v. True)"
  unfolding h_pop_def
  by (rule keeps_bind [OF keeps_items])
     (auto intro: keeps_raise keeps_return keeps_bind [OF keeps_store] split: option.splits)

lemma keeps_pop_default: "n \<le> a \<Longrightarrow> keeps n (h_pop_default a k dflt) (\<lambda>v. True)"
  unfolding h_pop_default_def
  by (rule keeps_bind [OF keeps_items])
     (auto intro: keeps_raise keeps_return keeps_bind [OF keeps_store] split: option.splits)

lemma keeps_store_conf: "keeps n (store_conf_h a) (\<lambda>c. n \<le> c)"
  unfolding store_conf_h_def
  by (intro keeps_bind [OF keeps_getitem] keeps_bind [OF keeps_alloc] keeps_bind [OF keeps_get]
      keeps_bind [OF keeps_copy] keeps_bind [OF keeps_update] keeps_return)

lemma keeps_loc_conf: "keeps n (loc_conf_h a) (\<lambda>c. n \<le> c)"
  unfolding loc_conf_h_def
  by (intro keeps_bind [OF keeps_getitem] keeps_bind [OF keeps_alloc] keeps_bind [OF keeps_get]
      keeps_bind [OF keeps_copy] keeps_bind [OF keeps_update] keeps_return)

lemma keeps_make_store: "keeps n (make_store_h a) (\<lambda>r. True)"
  unfolding make_store_h_def Let_def
  apply (rule keeps_bind [OF keeps_store_conf])
  apply (rule keeps_bind [OF keeps_pop], assumption)
  apply (rule keeps_bind [where P = "\<lambda>cls. True"])
   apply (simp add: keeps_return keeps_raise)
  apply (rule keeps_bind [OF keeps_items])
  apply (rule keeps_weaken [OF keeps_alloc])
  apply simp
  done

lemma keeps_make_store_of: "keeps n (make_store_of_h v) (\<lambda>r. True)"
  unfolding make_store_of_h_def
  by (cases v) (simp_all add: keeps_raise keeps_make_store)

lemma keeps_make_store_pairs: "keeps n (make_store_pairs_h a ks) (\<lambda>ps. True)"
proof (induction ks)
  case Nil
  show ?case by (simp add: keeps_return)
next
  case (Cons k ks)
  show ?case
    unfolding make_store_pairs_h.simps
    by (intro keeps_bind [OF keeps_getitem] keeps_bind [OF keeps_make_store_of]
        keeps_bind [OF Cons.IH] keeps_return TrueI)
qed

lemma keeps_make_stores: "keeps n (make_stores_h a) (\<lambda>r. True)"
  unfolding make_stores_h_def
  apply (rule keeps_bind [OF keeps_items])
  apply (rule keeps_bind [where P = "\<lambda>a. True"])
   apply (simp add: keeps_return keeps_weaken [OF keeps_alloc])
  apply (rule keeps_bind [OF keeps_items])
  apply (rule keeps_bind [OF keeps_make_store_pairs])
  apply (rule keeps_weaken [OF keeps_alloc])
  apply simp
  done

lemma keeps_add_str: "keeps n (add_str_h v s) (\<lambda>r. True)"
  unfolding add_str_h_def by (cases v) (simp_all add: keeps_raise keeps_return)

lemma keeps_registry_of: "keeps n (registry_of_h a key) (\<lambda>r. True)"
  unfolding registry_of_h_def
  by (rule keeps_bind [OF keeps_lookup])
     (simp add: keeps_raise keeps_getitem split: hval.splits)

lemma keeps_make_location: "keeps n (make_location_h a s) (\<lambda>r. True)"
  unfolding make_location_h_def
  apply (rule keeps_bind [where P = "\<lambda>a. True"])
   apply (cases s; simp add: keeps_return keeps_weaken [OF keeps_alloc])
  apply (rule keeps_bind [OF keeps_loc_conf])
  apply (rule keeps_bind [OF keeps_pop], assumption)
  apply (rule keeps_bind [where P = "\<lambda>cls. True"])
   apply (auto intro!: keeps_return keeps_raise keeps_bind [OF keeps_pop])[1]
  apply (rule keeps_bind [OF keeps_pop_default], assumption)
  apply (rule keeps_bind [OF keeps_add_str])
  apply (rule keeps_bind [OF keeps_pop_default], assumption)
  apply (rule keeps_bind [OF keeps_pop], assumption)
  apply (rule keeps_bind [OF keeps_registry_of])
  apply (rule keeps_bind [OF keeps_alloc])
  apply (rule keeps_bind [OF keeps_update], assumption)
  apply (rule keeps_return)
  apply simp
  done

lemma keeps_extends:
  assumes "keeps (length h) m Q" and "m h = (r, h')"
  shows "\<exists>new. h' = h @ new"
proof -
  from keepsD(1) [OF assms(1) _ assms(2)] have "unchanged (length h) h h'" by simp
  then have "take (length h) h' = h" by (simp add: unchanged_def)
  then have "h' = h @ drop (length h) h'"
    by (metis append_take_drop_id)
  then show ?thesis ..
qed

section \<open>The merged configuration on a heap\<close>

lemma length_module_heap: "length module_heap = 10"
  by (simp add: module_heap_def)

lemma dict_at_append: "a < length h \<Longrightarrow> dict_at (h @ ext) a = dict_at h a"
  by (simp add: dict_at_def nth_append)

lemma dict_at_Some_less: "dict_at h a = Some d \<Longrightarrow> a < length h"
  by (simp add: dict_at_def split: if_splits)

lemma dict_at_new: "dict_at (h @ ODict d # ext) (length h) = Some d"
  by (simp add: dict_at_def nth_append)

lemma dict_at_new_Suc: "dict_at (h @ x # ODict d # ext) (Suc (length h)) = Some d"
  by (simp add: dict_at_def nth_append)

lemma dict_at_module:
  "a < 10 \<Longrightarrow> dict_at (module_heap @ rest) a = dict_at module_heap a"
  by (simp add: dict_at_append length_module_heap)

text \<open>The statements of a merge, for the table at an address.\<close>

lemma merge_h:
  assumes h: "h = module_heap @ rest"
    and table: "table = default_store_addr \<or> table = default_location_addr"
  shows "h_bind (h_getitem a ''type'') (\<lambda>t.
         h_bind (h_alloc (ODict [])) (\<lambda>empty.
         h_bind (h_get table t (HRef empty)) (\<lambda>bundle.
         h_bind (h_copy bundle) (\<lambda>conf.
         h_bind (h_update conf a) (\<lambda>u.
         h_return conf))))) h
       = (case dict_at h a of
            None \<Rightarrow> (Inl HTypeError, h)
          | Some E \<Rightarrow>
              (case map_of E ''type'' of
                 None \<Rightarrow> (Inl (HKeyError (HStr ''type'')), h)
               | Some t \<Rightarrow>
                   if hashable_h t
                   then (Inr (Suc (length h)),
                         h @ [ODict [], ODict (dict_update (bundle_h table t) E)])
                   else (Inl HTypeError, h @ [ODict []])))"
proof (cases "dict_at h a")
  case None
  then show ?thesis
    by (simp add: h_bind_def h_getitem_def h_items_def)
next
  case (Some E)
  then have a: "a < length h" by (rule dict_at_Some_less)
  show ?thesis
  proof (cases "map_of E ''type''")
    case None
    with Some show ?thesis
      by (simp add: h_bind_def h_getitem_def h_items_def h_raise_def)
  next
    case t: (Some t)
    let ?h1 = "h @ [ODict []]"
    have g: "h_getitem a ''type'' h = (Inr t, h)"
      using Some t by (simp add: h_bind_def h_getitem_def h_items_def h_return_def)
    have tl: "table < 10" using table
      by (auto simp: default_store_addr_def default_location_addr_def)
    obtain T where T: "dict_at ?h1 table = Some T" and Tm: "dict_at module_heap table = Some T"
      using table
      by (auto simp: h dict_at_def nth_append module_heap_def default_store_addr_def
          default_location_addr_def)
    show ?thesis
    proof (cases "hashable_h t")
      case False
      then show ?thesis
        using g T by (simp add: Some t h_bind_def h_alloc_def h_get_def h_items_def h_raise_def)
    next
      case True
      let ?B = "bundle_h table t"
      have step: "h_bind (h_get table t (HRef (length h))) (\<lambda>bundle. h_copy bundle) ?h1
                    = (Inr (Suc (length h)), ?h1 @ [ODict ?B])"
      proof (cases "\<exists>name b. t = HStr name \<and> map_of T name = Some (HRef b)")
        case True
        then obtain name b where n: "t = HStr name" and b: "map_of T name = Some (HRef b)"
          by blast
        have "b < 10 \<and> (\<exists>B. dict_at module_heap b = Some B)"
          using table Tm b
          by (auto simp: module_heap_def dict_at_def default_store_addr_def
              default_location_addr_def split: if_splits)
        then obtain B where bl: "b < 10" and B: "dict_at module_heap b = Some B" by blast
        have "dict_at ?h1 b = Some B"
          using bl B by (simp add: h dict_at_module)
        then show ?thesis
          using T Tm b B
          by (simp add: n h_bind_def h_get_def h_items_def h_return_def h_copy_def
              h_alloc_def bundle_h_def)
      next
        case False
        have other: "map_of T name = Some v \<Longrightarrow> \<exists>b. v = HRef b" for name v
          using table Tm
          by (auto simp: module_heap_def dict_at_def default_store_addr_def
              default_location_addr_def split: if_splits)
        have B: "?B = []"
          using False Tm other
          by (cases t) (auto simp: bundle_h_def split: option.splits hval.splits)
        have "h_get table t (HRef (length h)) ?h1 = (Inr (HRef (length h)), ?h1)"
          using False True T other
          by (cases t) (auto simp: h_bind_def h_get_def h_items_def h_return_def
              split: option.splits)
        then show ?thesis
          by (simp add: h_bind_def h_copy_def h_items_def h_alloc_def B dict_at_new)
      qed
      have upd: "h_update (Suc (length h)) a (?h1 @ [ODict ?B])
                   = (Inr (), h @ [ODict [], ODict (dict_update ?B E)])"
        using Some a
        by (simp add: h_update_def h_bind_def h_items_def h_store_def dict_at_new_Suc
            dict_at_append list_update_append)
      have "h_bind (h_get table t (HRef (length h))) (\<lambda>bundle.
              h_bind (h_copy bundle) (\<lambda>conf.
              h_bind (h_update conf a) (\<lambda>u. h_return conf))) ?h1
            = (Inr (Suc (length h)), h @ [ODict [], ODict (dict_update ?B E)])"
        using step upd
        by (auto simp: h_bind_def h_return_def split: prod.splits sum.splits)
      then show ?thesis
        using g True by (simp add: Some t h_bind_def h_alloc_def)
    qed
  qed
qed

lemma store_conf_h_module:
  assumes "h = module_heap @ rest"
  shows "store_conf_h a h
       = (case dict_at h a of
            None \<Rightarrow> (Inl HTypeError, h)
          | Some E \<Rightarrow>
              (case map_of E ''type'' of
                 None \<Rightarrow> (Inl (HKeyError (HStr ''type'')), h)
               | Some t \<Rightarrow>
                   if hashable_h t
                   then (Inr (Suc (length h)),
                         h @ [ODict [], ODict (dict_update (bundle_h default_store_addr t) E)])
                   else (Inl HTypeError, h @ [ODict []])))"
  unfolding store_conf_h_def using assms by (intro merge_h) simp_all

lemma loc_conf_h_module:
  assumes "h = module_heap @ rest"
  shows "loc_conf_h a h
       = (case dict_at h a of
            None \<Rightarrow> (Inl HTypeError, h)
          | Some E \<Rightarrow>
              (case map_of E ''type'' of
                 None \<Rightarrow> (Inl (HKeyError (HStr ''type'')), h)
               | Some t \<Rightarrow>
                   if hashable_h t
                   then (Inr (Suc (length h)),
                         h @ [ODict [], ODict (dict_update (bundle_h default_location_addr t) E)])
                   else (Inl HTypeError, h @ [ODict []])))"
  unfolding loc_conf_h_def using assms by (intro merge_h) simp_all

lemma store_conf_h_again:
  assumes h: "h = module_heap @ rest" and c: "store_conf_h a h = (Inr c, hc)"
  shows "\<exists>c' hc' M. store_conf_h a (h @ ext) = (Inr c', hc')
           \<and> dict_at hc c = Some M \<and> dict_at hc' c' = Some M"
proof -
  from c obtain E t where E: "dict_at h a = Some E" and t: "map_of E ''type'' = Some t"
    and ht: "hashable_h t"
    by (auto simp: store_conf_h_module [OF h] split: option.splits if_splits)
  let ?M = "dict_update (bundle_h default_store_addr t) E"
  have 1: "c = Suc (length h)" "hc = h @ [ODict [], ODict ?M]"
    using c E t ht by (simp_all add: store_conf_h_module [OF h])
  have g: "h @ ext = module_heap @ (rest @ ext)" by (simp add: h)
  have Eg: "dict_at (h @ ext) a = Some E"
    using E dict_at_Some_less [OF E] by (simp add: dict_at_append)
  have 2: "store_conf_h a (h @ ext)
             = (Inr (Suc (length (h @ ext))), (h @ ext) @ [ODict [], ODict ?M])"
    using Eg t ht by (simp add: store_conf_h_module [OF g])
  have "dict_at hc c = Some ?M"
    unfolding 1 by (rule dict_at_new_Suc)
  moreover have "dict_at ((h @ ext) @ [ODict [], ODict ?M]) (Suc (length (h @ ext))) = Some ?M"
    by (rule dict_at_new_Suc)
  ultimately show ?thesis using 2 by blast
qed

lemma loc_conf_h_again:
  assumes h: "h = module_heap @ rest" and c: "loc_conf_h a h = (Inr c, hc)"
  shows "\<exists>c' hc' M. loc_conf_h a (h @ ext) = (Inr c', hc')
           \<and> dict_at hc c = Some M \<and> dict_at hc' c' = Some M"
proof -
  from c obtain E t where E: "dict_at h a = Some E" and t: "map_of E ''type'' = Some t"
    and ht: "hashable_h t"
    by (auto simp: loc_conf_h_module [OF h] split: option.splits if_splits)
  let ?M = "dict_update (bundle_h default_location_addr t) E"
  have 1: "c = Suc (length h)" "hc = h @ [ODict [], ODict ?M]"
    using c E t ht by (simp_all add: loc_conf_h_module [OF h])
  have g: "h @ ext = module_heap @ (rest @ ext)" by (simp add: h)
  have Eg: "dict_at (h @ ext) a = Some E"
    using E dict_at_Some_less [OF E] by (simp add: dict_at_append)
  have 2: "loc_conf_h a (h @ ext)
             = (Inr (Suc (length (h @ ext))), (h @ ext) @ [ODict [], ODict ?M])"
    using Eg t ht by (simp add: loc_conf_h_module [OF g])
  have "dict_at hc c = Some ?M"
    unfolding 1 by (rule dict_at_new_Suc)
  moreover have "dict_at ((h @ ext) @ [ODict [], ODict ?M]) (Suc (length (h @ ext))) = Some ?M"
    by (rule dict_at_new_Suc)
  ultimately show ?thesis using 2 by blast
qed

text \<open>
  C10. Whatever heap they start from and whatever their outcome, \<^verbatim>\<open>make_store\<close>,
  \<^verbatim>\<open>make_stores\<close> and \<^verbatim>\<open>make_location\<close> leave a heap that is the old heap
  followed by new objects: no object that existed, the module's tables and the dicts given
  among them, is changed. From a heap that starts with the module's objects, the merge of
  a second call, after a whole first call, gives a merged configuration with the same
  items as the merge of the first.
\<close>

theorem factories_leave_objects_unchanged:
  "(make_store_h a h = (rs, hs) \<longrightarrow> (\<exists>new. hs = h @ new))
   \<and> (make_stores_h a h = (rm, hm) \<longrightarrow> (\<exists>new. hm = h @ new))
   \<and> (make_location_h a stores h = (rl, hl) \<longrightarrow> (\<exists>new. hl = h @ new))
   \<and> (h = module_heap @ rest \<and> make_store_h a h = (rs, hs)
        \<and> store_conf_h a h = (Inr c, hc) \<longrightarrow>
        (\<exists>c' hc' M. store_conf_h a hs = (Inr c', hc')
           \<and> dict_at hc c = Some M \<and> dict_at hc' c' = Some M))
   \<and> (h = module_heap @ rest \<and> make_location_h a stores h = (rl, hl)
        \<and> loc_conf_h a h = (Inr c, hc) \<longrightarrow>
        (\<exists>c' hc' M. loc_conf_h a hl = (Inr c', hc')
           \<and> dict_at hc c = Some M \<and> dict_at hc' c' = Some M))"
proof (intro conjI impI)
  show "\<exists>new. hs = h @ new" if "make_store_h a h = (rs, hs)"
    using keeps_make_store that by (rule keeps_extends)
  show "\<exists>new. hm = h @ new" if "make_stores_h a h = (rm, hm)"
    using keeps_make_stores that by (rule keeps_extends)
  show "\<exists>new. hl = h @ new" if "make_location_h a stores h = (rl, hl)"
    using keeps_make_location that by (rule keeps_extends)
  show "\<exists>c' hc' M. store_conf_h a hs = (Inr c', hc')
           \<and> dict_at hc c = Some M \<and> dict_at hc' c' = Some M"
    if "h = module_heap @ rest \<and> make_store_h a h = (rs, hs) \<and> store_conf_h a h = (Inr c, hc)"
  proof -
    from that have h: "h = module_heap @ rest" and m: "make_store_h a h = (rs, hs)"
      and c: "store_conf_h a h = (Inr c, hc)"
      by blast+
    from keeps_extends [OF keeps_make_store m] obtain new where hs: "hs = h @ new" ..
    show ?thesis unfolding hs by (rule store_conf_h_again [OF h c])
  qed
  show "\<exists>c' hc' M. loc_conf_h a hl = (Inr c', hc')
           \<and> dict_at hc c = Some M \<and> dict_at hc' c' = Some M"
    if "h = module_heap @ rest \<and> make_location_h a stores h = (rl, hl)
        \<and> loc_conf_h a h = (Inr c, hc)"
  proof -
    from that have h: "h = module_heap @ rest" and m: "make_location_h a stores h = (rl, hl)"
      and c: "loc_conf_h a h = (Inr c, hc)"
      by blast+
    from keeps_extends [OF keeps_make_location m] obtain new where hl: "hl = h @ new" ..
    show ?thesis unfolding hl by (rule loc_conf_h_again [OF h c])
  qed
qed

lemmas heap_defs =
  h_bind_def h_return_def h_raise_def h_alloc_def h_items_def h_getitem_def h_lookup_def
  h_get_def h_copy_def h_store_def h_update_def h_pop_def h_pop_default_def dict_at_def
  add_str_h_def registry_of_h_def

text \<open>
  The store of \<^verbatim>\<open>defaults\<close>, on the heap of the module: the new objects are the
  \<^verbatim>\<open>{}\<close> of \<^verbatim>\<open>get\<close>, \<^verbatim>\<open>store_conf\<close> after the pop, and the dict returned.
\<close>

lemma make_store_h_defaults:
  "make_store_h 6 module_heap
     = (Inr 12,
        module_heap @
        [ODict [],
         ODict [(''min_messages'', HInt 0), (''max_messages'', HInt 0), (''message_timeout'', HInt 0)],
         ODict [(''store'', HStore MemoryStore
                   [(''min_messages'', HInt 0), (''max_messages'', HInt 0),
                    (''message_timeout'', HInt 0)]),
                (''registry'', HRegistry (HStore MemoryStore
                   [(''min_messages'', HInt 0), (''max_messages'', HInt 0),
                    (''message_timeout'', HInt 0)]))]])"
  by (simp add: make_store_h_def store_conf_h_def heap_defs module_heap_def
      default_store_addr_def dict_update_def dict_remove_def Let_def)

theorem factories_leave_objects_unchanged_witness:
  "(\<exists>new. snd (make_store_h 10
        (module_heap @ [ODict [(''type'', HStr ''redis''), (''host'', HStr ''h'')]]))
      = (module_heap @ [ODict [(''type'', HStr ''redis''), (''host'', HStr ''h'')]]) @ new)
   \<and> (\<exists>new. snd (make_stores_h 10
        (module_heap @ [ODict [(''type'', HStr ''redis''), (''host'', HStr ''h'')]]))
      = (module_heap @ [ODict [(''type'', HStr ''redis''), (''host'', HStr ''h'')]]) @ new)
   \<and> (\<exists>new. snd (make_location_h 7 None module_heap) = module_heap @ new)
   \<and> (\<exists>c' hc'. store_conf_h 10 (snd (make_store_h 10
        (module_heap @ [ODict [(''type'', HStr ''redis''), (''host'', HStr ''h'')]])))
        = (Inr c', hc')
      \<and> dict_at hc' c' = Some [(''port'', HInt 6379), (''host'', HStr ''h''),
           (''key_prefix'', HStr []), (''database'', HInt 0), (''type'', HStr ''redis'')])
   \<and> (\<exists>c' hc'. loc_conf_h 7 (snd (make_location_h 7 None module_heap)) = (Inr c', hc')
      \<and> dict_at hc' c' = Some [(''create_on_post'', HBool True), (''store'', HStr ''default''),
           (''type'', HStr ''publisher''), (''prefix'', HStr ''/publisher/'')])"
proof -
  let ?E = "[(''type'', HStr ''redis''), (''host'', HStr ''h'')]"
  let ?H = "module_heap @ [ODict ?E]"
  let ?Ms = "[(''port'', HInt 6379), (''host'', HStr ''h''),
           (''key_prefix'', HStr []), (''database'', HInt 0), (''type'', HStr ''redis'')]"
  let ?L = "[(''type'', HStr ''publisher''), (''prefix'', HStr ''/publisher/'')]"
  let ?Ml = "[(''create_on_post'', HBool True), (''store'', HStr ''default''),
           (''type'', HStr ''publisher''), (''prefix'', HStr ''/publisher/'')]"
  have E: "dict_at ?H 10 = Some ?E"
    using dict_at_new [of module_heap ?E "[]"] by (simp add: length_module_heap)
  have L: "dict_at module_heap 7 = Some ?L"
    by (simp add: dict_at_def module_heap_def)
  have bs: "dict_update (bundle_h default_store_addr (HStr ''redis'')) ?E = ?Ms"
    by (simp add: bundle_h_def default_store_addr_def module_heap_def dict_at_def dict_update_def)
  have bl: "dict_update (bundle_h default_location_addr (HStr ''publisher'')) ?L = ?Ml"
    by (simp add: bundle_h_def default_location_addr_def module_heap_def dict_at_def
        dict_update_def)
  have cs: "store_conf_h 10 ?H = (Inr 12, ?H @ [ODict [], ODict ?Ms])"
    using store_conf_h_module [of ?H "[ODict ?E]" 10] E bs
    by (simp add: length_module_heap)
  have cl: "loc_conf_h 7 module_heap = (Inr 11, module_heap @ [ODict [], ODict ?Ml])"
    using loc_conf_h_module [of module_heap "[]" 7] L bl
    by (simp add: length_module_heap)
  have ds: "dict_at (?H @ [ODict [], ODict ?Ms]) 12 = Some ?Ms"
    using dict_at_new_Suc [of ?H "ODict []" ?Ms "[]"] by (simp add: length_module_heap)
  have dl: "dict_at (module_heap @ [ODict [], ODict ?Ml]) 11 = Some ?Ml"
    using dict_at_new_Suc [of module_heap "ODict []" ?Ml "[]"] by (simp add: length_module_heap)
  from factories_leave_objects_unchanged [where a = 10 and h = ?H and rest = "[ODict ?E]"
      and rs = "fst (make_store_h 10 ?H)" and hs = "snd (make_store_h 10 ?H)"
      and rm = "fst (make_stores_h 10 ?H)" and hm = "snd (make_stores_h 10 ?H)"
      and c = 12 and hc = "?H @ [ODict [], ODict ?Ms]"] cs ds
  have 1: "(\<exists>new. snd (make_store_h 10 ?H) = ?H @ new)"
    and 2: "(\<exists>new. snd (make_stores_h 10 ?H) = ?H @ new)"
    and 4: "\<exists>c' hc'. store_conf_h 10 (snd (make_store_h 10 ?H)) = (Inr c', hc')
              \<and> dict_at hc' c' = Some ?Ms"
    by auto
  from factories_leave_objects_unchanged [where a = 7 and h = module_heap and rest = "[]"
      and stores = None
      and rl = "fst (make_location_h 7 None module_heap)"
      and hl = "snd (make_location_h 7 None module_heap)"
      and c = 11 and hc = "module_heap @ [ODict [], ODict ?Ml]"] cl dl
  have 3: "(\<exists>new. snd (make_location_h 7 None module_heap) = module_heap @ new)"
    and 5: "\<exists>c' hc'. loc_conf_h 7 (snd (make_location_h 7 None module_heap)) = (Inr c', hc')
              \<and> dict_at hc' c' = Some ?Ml"
    by auto
  from 1 2 3 4 5 show ?thesis by blast
qed

end
